theory Spec2Isabelle
  imports Main
begin

section \<open>Strings\<close>

text \<open>
  A Python \<open>str\<close> is a sequence of Unicode code points, and \<open>len\<close> counts code points.
  A string is therefore a list of code points (the integers \<open>ord\<close> returns); ASCII literals are written through \<open>u\<close>,
  everything else as the list of its code points (in hexadecimal).
\<close>

type_synonym ustr = "int list"

definition u :: "string \<Rightarrow> ustr" where
  "u s = map of_char s"

text \<open>
  \<open>str.isspace\<close> for one character. The regular expression class \<open>\s\<close> of a \<open>str\<close>
  pattern is the same set of code points.
\<close>

definition isspace :: "int \<Rightarrow> bool" where
  "isspace c \<longleftrightarrow>
     (0x09 \<le> c \<and> c \<le> 0x0D) \<or> (0x1C \<le> c \<and> c \<le> 0x20) \<or> c = 0x85 \<or> c = 0xA0 \<or>
     c = 0x1680 \<or> (0x2000 \<le> c \<and> c \<le> 0x200A) \<or> c = 0x2028 \<or> c = 0x2029 \<or>
     c = 0x202F \<or> c = 0x205F \<or> c = 0x3000"

text \<open>\<open>s.strip()\<close>: leading and trailing whitespace removed.\<close>

definition strip :: "ustr \<Rightarrow> ustr" where
  "strip s = rev (dropWhile isspace (rev (dropWhile isspace s)))"

text \<open>\<open>s.strip(chars)\<close>: leading and trailing characters of \<open>chars\<close> removed.\<close>

definition strip_chars :: "ustr \<Rightarrow> ustr \<Rightarrow> ustr" where
  "strip_chars chars s =
     rev (dropWhile (\<lambda>c. c \<in> set chars) (rev (dropWhile (\<lambda>c. c \<in> set chars) s)))"

text \<open>\<open>s.replace(a, b)\<close> for one-character \<open>a\<close> and \<open>b\<close>.\<close>

definition replace_char :: "int \<Rightarrow> int \<Rightarrow> ustr \<Rightarrow> ustr" where
  "replace_char a b s = map (\<lambda>c. if c = a then b else c) s"

text \<open>\<open>s.startswith(p)\<close> and \<open>sub in s\<close>.\<close>

definition startswith :: "ustr \<Rightarrow> ustr \<Rightarrow> bool" where
  "startswith s p \<longleftrightarrow> take (length p) s = p"

fun contains :: "ustr \<Rightarrow> ustr \<Rightarrow> bool" where
  "contains [] sub = (sub = [])"
| "contains (c # cs) sub = (startswith (c # cs) sub \<or> contains cs sub)"

section \<open>Regular expressions\<close>

text \<open>
  The part of Python's \<open>re\<close> that the program uses: literals (also under IGNORECASE),
  character sets, \<open>\s\<close> and \<open>\S\<close>, the dot under DOTALL, greedy bounded repetition of a
  single character class, the lazy star of a character class, the greedy option, alternation,
  one capturing group, \<open>^\<close> and \<open>$\<close> (without MULTILINE).
\<close>

datatype cclass =
    Lit int
  | LitI int
  | OneOf "int list"
  | NoneOf "int list"
  | Space
  | NonSpace
  | AnyChar

definition ascii_lower :: "int \<Rightarrow> int" where
  "ascii_lower c = (if 0x41 \<le> c \<and> c \<le> 0x5A then c + 0x20 else c)"

text \<open>
  An ASCII literal \<open>p\<close> under IGNORECASE: besides the other case of \<open>p\<close>, the letter i
  matches U+0130 and U+0131, s matches U+017F and k matches U+212A.
\<close>

definition ci_match :: "int \<Rightarrow> int \<Rightarrow> bool" where
  "ci_match p c \<longleftrightarrow>
     ascii_lower c = ascii_lower p \<or>
     (ascii_lower p = 0x69 \<and> (c = 0x130 \<or> c = 0x131)) \<or>
     (ascii_lower p = 0x73 \<and> c = 0x17F) \<or>
     (ascii_lower p = 0x6B \<and> c = 0x212A)"

fun cmatch :: "cclass \<Rightarrow> int \<Rightarrow> bool" where
  "cmatch (Lit p) c = (c = p)"
| "cmatch (LitI p) c = ci_match p c"
| "cmatch (OneOf cs) c = (c \<in> set cs)"
| "cmatch (NoneOf cs) c = (c \<notin> set cs)"
| "cmatch Space c = isspace c"
| "cmatch NonSpace c = (\<not> isspace c)"
| "cmatch AnyChar c = True"

datatype rx =
    Chr cclass
  | Eps
  | Seq rx rx
  | Alt rx rx
  | Rep cclass nat "nat option"
  | LazyStar cclass
  | Opt rx
  | Group rx
  | Bol
  | Eol

text \<open>The usual abbreviations: \<open>c*\<close>, \<open>c+\<close>, a sequence, an alternation, a literal word.\<close>

definition Star :: "cclass \<Rightarrow> rx" where
  "Star c = Rep c 0 None"

definition Plus :: "cclass \<Rightarrow> rx" where
  "Plus c = Rep c 1 None"

fun cat :: "rx list \<Rightarrow> rx" where
  "cat [] = Eps"
| "cat [r] = r"
| "cat (r # rs) = Seq r (cat rs)"

fun alts :: "rx list \<Rightarrow> rx" where
  "alts [] = Eps"
| "alts [r] = r"
| "alts (r # rs) = Alt r (alts rs)"

definition word :: "ustr \<Rightarrow> rx" where
  "word w = cat (map (\<lambda>c. Chr (Lit c)) w)"

definition wordI :: "ustr \<Rightarrow> rx" where
  "wordI w = cat (map (\<lambda>c. Chr (LitI c)) w)"

text \<open>The span (start, end) of capture group 1, when it took part in the match.\<close>

type_synonym cap = "(nat \<times> nat) option"

text \<open>The number of characters of class \<open>c\<close> that follow position \<open>i\<close>.\<close>

definition run :: "cclass \<Rightarrow> ustr \<Rightarrow> nat \<Rightarrow> nat" where
  "run c s i = length (takeWhile (cmatch c) (drop i s))"

text \<open>
  \<open>rmatch r s i cap\<close> lists the ways \<open>r\<close> matches \<open>s\<close> from position \<open>i\<close>, each as the
  position where the match ends and the capture it leaves, in the order in which the
  backtracking matcher tries them: the head of the list is the match \<open>re\<close> reports.
\<close>

fun rmatch :: "rx \<Rightarrow> ustr \<Rightarrow> nat \<Rightarrow> cap \<Rightarrow> (nat \<times> cap) list" where
  "rmatch (Chr c) s i cp = (if i < length s \<and> cmatch c (s ! i) then [(Suc i, cp)] else [])"
| "rmatch Eps s i cp = [(i, cp)]"
| "rmatch (Seq a b) s i cp = concat (map (\<lambda>(j, cq). rmatch b s j cq) (rmatch a s i cp))"
| "rmatch (Alt a b) s i cp = rmatch a s i cp @ rmatch b s i cp"
| "rmatch (Rep c m n) s i cp =
     (let k = (case n of None \<Rightarrow> run c s i | Some b \<Rightarrow> min b (run c s i))
      in map (\<lambda>j. (i + j, cp)) (rev [m ..< Suc k]))"
| "rmatch (LazyStar c) s i cp = map (\<lambda>j. (i + j, cp)) [0 ..< Suc (run c s i)]"
| "rmatch (Opt a) s i cp = rmatch a s i cp @ [(i, cp)]"
| "rmatch (Group a) s i cp = map (\<lambda>(j, cq). (j, Some (i, j))) (rmatch a s i cp)"
| "rmatch Bol s i cp = (if i = 0 then [(i, cp)] else [])"
| "rmatch Eol s i cp =
     (if i = length s \<or> (Suc i = length s \<and> s ! i = 0x0A) then [(i, cp)] else [])"

text \<open>
  \<open>pattern.search(s, pos)\<close>: the first start position, from \<open>pos\<close> on, at which the
  pattern matches, with the end of the match and the capture.
\<close>

fun search_at :: "rx \<Rightarrow> ustr \<Rightarrow> nat list \<Rightarrow> (nat \<times> nat \<times> cap) option" where
  "search_at r s [] = None"
| "search_at r s (i # is) =
     (case rmatch r s i None of [] \<Rightarrow> search_at r s is | (j, cq) # _ \<Rightarrow> Some (i, j, cq))"

definition re_search_from :: "rx \<Rightarrow> ustr \<Rightarrow> nat \<Rightarrow> (nat \<times> nat \<times> cap) option" where
  "re_search_from r s pos = search_at r s [pos ..< Suc (length s)]"

definition re_search :: "rx \<Rightarrow> ustr \<Rightarrow> (nat \<times> nat \<times> cap) option" where
  "re_search r s = re_search_from r s 0"

text \<open>\<open>m.group(1) or ""\<close> for a match \<open>m\<close>.\<close>

definition group1 :: "ustr \<Rightarrow> cap \<Rightarrow> ustr" where
  "group1 s cp = (case cp of None \<Rightarrow> [] | Some (a, b) \<Rightarrow> take (b - a) (drop a s))"

lemma search_at_bounds:
  "search_at r s ps = Some (st, en, cq) \<Longrightarrow> st \<in> set ps"
  by (induction ps) (auto split: list.splits)

lemma re_search_from_bounds:
  "re_search_from r s pos = Some (st, en, cq) \<Longrightarrow> pos \<le> st \<and> st \<le> length s"
proof -
  assume "re_search_from r s pos = Some (st, en, cq)"
  then have "st \<in> set [pos ..< Suc (length s)]"
    unfolding re_search_from_def by (rule search_at_bounds)
  then show ?thesis
    by (simp only: set_upt atLeastLessThan_iff less_Suc_eq_le)
qed

text \<open>
  \<open>re.sub(pattern, repl, s)\<close> for a literal replacement: the matches are found from left to
  right, each search starting where the last match ended. After an empty match the scan
  moves one character on (no pattern of this program matches the empty string).
\<close>

function sub_loop :: "rx \<Rightarrow> ustr \<Rightarrow> ustr \<Rightarrow> nat \<Rightarrow> ustr" where
  "sub_loop r repl s pos =
     (case re_search_from r s pos of
        None \<Rightarrow> drop pos s
      | Some (st, en, cq) \<Rightarrow>
          if st < en then take (st - pos) (drop pos s) @ repl @ sub_loop r repl s en
          else take (st - pos) (drop pos s) @ repl @ take 1 (drop st s) @
               sub_loop r repl s (Suc st))"
  by pat_completeness auto
termination
  by (relation "measure (\<lambda>(r, repl, s, pos). Suc (length s) - pos)")
     (auto dest: re_search_from_bounds)

definition re_sub :: "rx \<Rightarrow> ustr \<Rightarrow> ustr \<Rightarrow> ustr" where
  "re_sub r repl s = sub_loop r repl s 0"

text \<open>\<open>pattern.split(s)\<close> for a pattern without a capturing group.\<close>

function split_loop :: "rx \<Rightarrow> ustr \<Rightarrow> nat \<Rightarrow> ustr list" where
  "split_loop r s pos =
     (case re_search_from r s pos of
        None \<Rightarrow> [drop pos s]
      | Some (st, en, cq) \<Rightarrow>
          if st < en then take (st - pos) (drop pos s) # split_loop r s en
          else take (Suc st - pos) (drop pos s) # split_loop r s (Suc st))"
  by pat_completeness auto
termination
  by (relation "measure (\<lambda>(r, s, pos). Suc (length s) - pos)")
     (auto dest: re_search_from_bounds)

definition re_split :: "rx \<Rightarrow> ustr \<Rightarrow> ustr list" where
  "re_split r s = split_loop r s 0"

text \<open>\<open>re.finditer(pattern, s)\<close>, each match as the text of its group 1.\<close>

function finditer_loop :: "rx \<Rightarrow> ustr \<Rightarrow> nat \<Rightarrow> ustr list" where
  "finditer_loop r s pos =
     (case re_search_from r s pos of
        None \<Rightarrow> []
      | Some (st, en, cq) \<Rightarrow>
          group1 s cq # finditer_loop r s (if st < en then en else Suc st))"
  by pat_completeness auto
termination
  by (relation "measure (\<lambda>(r, s, pos). Suc (length s) - pos)")
     (auto dest: re_search_from_bounds)

definition re_finditer :: "rx \<Rightarrow> ustr \<Rightarrow> ustr list" where
  "re_finditer r s = finditer_loop r s 0"

section \<open>The title normalizer\<close>

text \<open>
  The noise words, in the order of the source: reshipi (recipe), tsukurikata (how to make),
  kantan, ninki, osusume, kondate, zairyou, tejun, douga, puro-no, teiban, ryouri, kitchin.
\<close>

definition w_recipe :: ustr where
  "w_recipe = [0x30EC, 0x30B7, 0x30D4]"

definition w_howto :: ustr where
  "w_howto = [0x4F5C, 0x308A, 0x65B9]"

definition NOISE_WORDS :: "ustr list" where
  "NOISE_WORDS =
     [w_recipe, w_howto, [0x7C21, 0x5358], [0x4EBA, 0x6C17], [0x304A, 0x3059, 0x3059, 0x3081],
      [0x732E, 0x7ACB], [0x6750, 0x6599], [0x624B, 0x9806], [0x52D5, 0x753B],
      [0x30D7, 0x30ED, 0x306E], [0x5B9A, 0x756A], [0x6599, 0x7406],
      [0x30AD, 0x30C3, 0x30C1, 0x30F3]]"

text \<open>
  The separators: fullwidth vertical line U+FF5C and \<open>|\<close>; hyphen, en dash U+2013 and em
  dash U+2014; colon and fullwidth colon U+FF1A; fullwidth solidus U+FF0F and \<open>/\<close>.
\<close>

definition SPLIT_SEP_RE :: rx where
  "SPLIT_SEP_RE =
     cat [Star Space,
          alts [Chr (OneOf [0xFF5C, 0x7C]), Chr (OneOf [0x2D, 0x2013, 0x2014]),
                Chr (Lit 0x3A), Chr (Lit 0xFF1A), Chr (Lit 0xFF0F), Chr (Lit 0x2F)],
          Star Space]"

text \<open>
  The trailing annotations: \<open>by\<close> or \<open>By\<close> and a token; up to 40 characters in lenticular
  brackets U+3010 and U+3011, in parentheses, or in fullwidth parentheses U+FF08 and U+FF09.
\<close>

definition TAIL_RE :: rx where
  "TAIL_RE =
     cat [Star Space,
          alts [cat [word (u ''by''), Plus Space, Plus NonSpace],
                cat [word (u ''By''), Plus Space, Plus NonSpace],
                cat [Chr (Lit 0x3010), Rep (NoneOf [0x3011]) 1 (Some 40), Chr (Lit 0x3011)],
                cat [Chr (Lit 0x28), Rep (NoneOf [0x29]) 1 (Some 40), Chr (Lit 0x29)],
                cat [Chr (Lit 0xFF08), Rep (NoneOf [0xFF09]) 1 (Some 40), Chr (Lit 0xFF09)]],
          Star Space, Eol]"

text \<open>The loop \<open>for _ in range(2)\<close> that drops trailing annotations.\<close>

fun strip_tail :: "nat \<Rightarrow> ustr \<Rightarrow> ustr" where
  "strip_tail 0 s = s"
| "strip_tail (Suc n) s =
     (let ns = strip (re_sub TAIL_RE [] s) in if ns = s then s else strip_tail n ns)"

text \<open>One round of the loop over the noise words: the word as a prefix, then as a suffix.\<close>

definition strip_noise :: "ustr \<Rightarrow> ustr \<Rightarrow> ustr" where
  "strip_noise s w =
     (let s1 = strip (re_sub (cat [Bol, word w, Star Space]) [] s)
      in strip (re_sub (cat [Star Space, word w, Eol]) [] s1))"

text \<open>The honorifics san, chan, kun and shi.\<close>

definition HONORIFIC_RE :: rx where
  "HONORIFIC_RE =
     cat [Plus Space,
          Group (alts [word [0x3055, 0x3093], word [0x3061, 0x3083, 0x3093],
                       word [0x304F, 0x3093], word [0x6C0F]]),
          Eol]"

definition PUNCT :: ustr where
  "PUNCT = [0x20, 0x2D, 0x2013, 0x2014, 0x7C, 0xFF5C, 0x3A, 0xFF1A, 0x2F, 0xFF0F]"

definition clean_dish_title :: "ustr \<Rightarrow> ustr option" where
  "clean_dish_title raw =
     (if raw = [] then None
      else
        let s = strip (re_sub (Plus Space) (u '' '') raw) in
        if s = [] then None
        else
          let s = strip (hd (re_split SPLIT_SEP_RE s));
              s = strip_tail 2 s;
              s = strip (re_sub (cat [word w_recipe, Eol]) [] s);
              s = strip (re_sub
                    (cat [Bol, word w_recipe, Rep (OneOf [0x3A, 0xFF1A]) 0 (Some 1), Star Space])
                    [] s);
              s = strip (re_sub (cat [word w_howto, Eol]) [] s);
              s = strip (re_sub
                    (cat [Bol, word w_howto, Rep (OneOf [0x3A, 0xFF1A]) 0 (Some 1), Star Space])
                    [] s);
              s = foldl strip_noise s NOISE_WORDS;
              s = strip (re_sub HONORIFIC_RE [] s);
              s = strip (strip_chars PUNCT s)
          in if 2 \<le> length s \<and> length s \<le> 60 then Some s else None)"

section \<open>Titles that are already clean\<close>

text \<open>\<open>s.endswith(p)\<close>.\<close>

definition endswith :: "ustr \<Rightarrow> ustr \<Rightarrow> bool" where
  "endswith s p \<longleftrightarrow> length p \<le> length s \<and> drop (length s - length p) s = p"

text \<open>
  The separator characters of \<open>_SPLIT_SEP_RE\<close>, the opening brackets of \<open>_TAIL_RE\<close> and the
  honorifics of line 248.
\<close>

definition SEPARATORS :: ustr where
  "SEPARATORS = [0xFF5C, 0x7C, 0x2D, 0x2013, 0x2014, 0x3A, 0xFF1A, 0xFF0F, 0x2F]"

definition OPEN_BRACKETS :: ustr where
  "OPEN_BRACKETS = [0x3010, 0x28, 0xFF08]"

definition HONORIFICS :: "ustr list" where
  "HONORIFICS = [[0x3055, 0x3093], [0x3061, 0x3083, 0x3093], [0x304F, 0x3093], [0x6C0F]]"

text \<open>
  The only whitespace of the string is the space, and every space stands alone between two
  characters that are not whitespace.
\<close>

definition single_spaced :: "ustr \<Rightarrow> bool" where
  "single_spaced t \<longleftrightarrow>
     list_all (\<lambda>i. isspace (t ! i) \<longrightarrow>
                    t ! i = 0x20 \<and> 0 < i \<and> Suc i < length t \<and> \<not> isspace (t ! Suc i))
       [0 ..< length t]"

text \<open>The string ends with \<open>by\<close> or \<open>By\<close>, whitespace, and a word without whitespace.\<close>

definition by_tail :: "ustr \<Rightarrow> bool" where
  "by_tail t \<longleftrightarrow>
     list_ex (\<lambda>j. (take 2 (drop j t) = u ''by'' \<or> take 2 (drop j t) = u ''By'') \<and>
                  j + 3 < length t \<and> isspace (t ! (j + 2)) \<and>
                  list_all (\<lambda>c. \<not> isspace c) (drop (j + 3) t))
       [0 ..< length t]"

text \<open>The string ends with whitespace and an honorific.\<close>

definition honorific_tail :: "ustr \<Rightarrow> bool" where
  "honorific_tail t \<longleftrightarrow>
     list_ex (\<lambda>h. length h < length t \<and> endswith t h \<and>
                  isspace (t ! (length t - length h - 1)))
       HONORIFICS"

text \<open>
  An already clean title: 2 to 60 characters, words separated by single spaces, no
  separator and no opening bracket, no tail \<open>by\<close> and a word and no honorific after a space,
  and no noise word at its start or at its end.
\<close>

definition already_clean :: "ustr \<Rightarrow> bool" where
  "already_clean t \<longleftrightarrow>
     2 \<le> length t \<and> length t \<le> 60 \<and> single_spaced t \<and>
     list_all (\<lambda>c. c \<notin> set SEPARATORS \<and> c \<notin> set OPEN_BRACKETS) t \<and>
     \<not> by_tail t \<and> \<not> honorific_tail t \<and>
     list_all (\<lambda>w. \<not> startswith t w \<and> \<not> endswith t w) NOISE_WORDS"

section \<open>Where a pattern can end\<close>

text \<open>The positions at which a match of \<open>r\<close> from position \<open>i\<close> can end.\<close>

fun ends :: "rx \<Rightarrow> ustr \<Rightarrow> nat \<Rightarrow> nat set" where
  "ends (Chr c) s i = (if i < length s \<and> cmatch c (s ! i) then {Suc i} else {})"
| "ends Eps s i = {i}"
| "ends (Seq a b) s i = (\<Union>j \<in> ends a s i. ends b s j)"
| "ends (Alt a b) s i = ends a s i \<union> ends b s i"
| "ends (Rep c m n) s i =
     {i + j | j. m \<le> j \<and> j \<le> (case n of None \<Rightarrow> run c s i | Some b \<Rightarrow> min b (run c s i))}"
| "ends (LazyStar c) s i = {i + j | j. j \<le> run c s i}"
| "ends (Opt a) s i = insert i (ends a s i)"
| "ends (Group a) s i = ends a s i"
| "ends Bol s i = (if i = 0 then {i} else {})"
| "ends Eol s i = (if i = length s \<or> (Suc i = length s \<and> s ! i = 0x0A) then {i} else {})"

section \<open>Categories\<close>

text \<open>
  The nineteen category keys of \<open>CATEGORIES\<close>, in the order of the source, each with the code
  point of its emoji: gohan-don, pasuta, men, pan, o-niku, o-sakana, tamago-mame, okazu, sarada,
  suupu, asa-gohan, o-bentou, tsukurioki, o-tsumami, suiitsu, o-yatsu, nabe, dorinku, sonota.
\<close>

definition c_gohan :: ustr where "c_gohan = [0x3054, 0x306F, 0x3093, 0x30FB, 0x4E3C]"
definition c_pasta :: ustr where "c_pasta = [0x30D1, 0x30B9, 0x30BF]"
definition c_men :: ustr where "c_men = [0x9EBA]"
definition c_pan :: ustr where "c_pan = [0x30D1, 0x30F3]"
definition c_niku :: ustr where "c_niku = [0x304A, 0x8089]"
definition c_sakana :: ustr where "c_sakana = [0x304A, 0x9B5A]"
definition c_tamago :: ustr where "c_tamago = [0x5375, 0x30FB, 0x8C46]"
definition c_okazu :: ustr where "c_okazu = [0x304A, 0x304B, 0x305A]"
definition c_salad :: ustr where "c_salad = [0x30B5, 0x30E9, 0x30C0]"
definition c_soup :: ustr where "c_soup = [0x30B9, 0x30FC, 0x30D7]"
definition c_asa :: ustr where "c_asa = [0x671D, 0x3054, 0x306F, 0x3093]"
definition c_bento :: ustr where "c_bento = [0x304A, 0x5F01, 0x5F53]"
definition c_tsukurioki :: ustr where "c_tsukurioki = [0x4F5C, 0x308A, 0x7F6E, 0x304D]"
definition c_tsumami :: ustr where "c_tsumami = [0x304A, 0x3064, 0x307E, 0x307F]"
definition c_sweets :: ustr where "c_sweets = [0x30B9, 0x30A4, 0x30FC, 0x30C4]"
definition c_oyatsu :: ustr where "c_oyatsu = [0x304A, 0x3084, 0x3064]"
definition c_nabe :: ustr where "c_nabe = [0x934B]"
definition c_drink :: ustr where "c_drink = [0x30C9, 0x30EA, 0x30F3, 0x30AF]"
definition c_sonota :: ustr where "c_sonota = [0x305D, 0x306E, 0x4ED6]"

definition CATEGORIES :: "(ustr \<times> ustr) list" where
  "CATEGORIES =
     [(c_gohan, [0x1F35A]), (c_pasta, [0x1F35D]), (c_men, [0x1F35C]), (c_pan, [0x1F35E]),
      (c_niku, [0x1F356]), (c_sakana, [0x1F41F]), (c_tamago, [0x1F95A]), (c_okazu, [0x1F957]),
      (c_salad, [0x1F96C]), (c_soup, [0x1F372]), (c_asa, [0x1F305]), (c_bento, [0x1F371]),
      (c_tsukurioki, [0x1F9CA]), (c_tsumami, [0x1F37A]), (c_sweets, [0x1F370]),
      (c_oyatsu, [0x1F36A]), (c_nabe, [0x1FAD5]), (c_drink, [0x2615]), (c_sonota, [0x2728])]"

definition CATEGORY_KEYS :: "ustr set" where
  "CATEGORY_KEYS = set (map fst CATEGORIES)"

definition DEFAULT_CATEGORY :: ustr where
  "DEFAULT_CATEGORY = c_okazu"

text \<open>\<open>s or ""\<close> for an optional string, and its truth value.\<close>

definition or_empty :: "ustr option \<Rightarrow> ustr" where
  "or_empty s = (case s of None \<Rightarrow> [] | Some x \<Rightarrow> x)"

definition truthy :: "ustr option \<Rightarrow> bool" where
  "truthy s \<longleftrightarrow> (case s of None \<Rightarrow> False | Some x \<Rightarrow> x \<noteq> [])"

text \<open>The ideographic space U+3000 becomes a space, then the string is trimmed.\<close>

definition normalize_spaces :: "ustr option \<Rightarrow> ustr" where
  "normalize_spaces s = strip (replace_char 0x3000 0x20 (or_empty s))"

definition normalize_category :: "ustr option \<Rightarrow> ustr" where
  "normalize_category c =
     (let c' = normalize_spaces c in if c' \<in> CATEGORY_KEYS then c' else c_sonota)"

section \<open>The category classifier\<close>

text \<open>\<open>any(k in t for k in ks)\<close>.\<close>

definition any_in :: "ustr list \<Rightarrow> ustr \<Rightarrow> bool" where
  "any_in ks t = list_ex (\<lambda>k. contains t k) ks"

text \<open>The keyword lists of the sixteen rules, in the order of the source.\<close>

definition k_pasta :: "ustr list" where
  "k_pasta = [[0x30D1, 0x30B9, 0x30BF], [0x30B9, 0x30D1, 0x30B2],
     [0x30AB, 0x30EB, 0x30DC, 0x30CA, 0x30FC, 0x30E9], [0x30DC, 0x30ED, 0x30CD, 0x30FC, 0x30BC],
     [0x30DA, 0x30DA, 0x30ED, 0x30F3]]"

definition k_men :: "ustr list" where
  "k_men = [[0x3046, 0x3069, 0x3093], [0x305D, 0x3070], [0x30E9, 0x30FC, 0x30E1, 0x30F3],
     [0x305D, 0x3046, 0x3081, 0x3093], [0x713C, 0x304D, 0x305D, 0x3070], [0x9EBA]]"

definition k_gohan :: "ustr list" where
  "k_gohan = [[0x4E3C], [0x30C1, 0x30E3, 0x30FC, 0x30CF, 0x30F3], [0x708A, 0x304D, 0x8FBC, 0x307F],
     [0x304A, 0x306B, 0x304E, 0x308A], [0x30AB, 0x30EC, 0x30FC], [0x30EA, 0x30BE, 0x30C3, 0x30C8]]"

definition k_pan :: "ustr list" where
  "k_pan = [[0x30D1, 0x30F3], [0x30C8, 0x30FC, 0x30B9, 0x30C8], [0x30B5, 0x30F3, 0x30C9],
     [0x30DB, 0x30C3, 0x30C8, 0x30B5, 0x30F3, 0x30C9]]"

definition k_sweets :: "ustr list" where
  "k_sweets = [[0x30B1, 0x30FC, 0x30AD], [0x30D7, 0x30EA, 0x30F3], [0x30D1, 0x30D5, 0x30A7],
     [0x30BF, 0x30EB, 0x30C8], [0x30A2, 0x30A4, 0x30B9], [0x30D6, 0x30E9, 0x30A6, 0x30CB, 0x30FC],
     [0x30AF, 0x30EC, 0x30FC, 0x30D7]]"

definition k_oyatsu :: "ustr list" where
  "k_oyatsu = [[0x30AF, 0x30C3, 0x30AD, 0x30FC], [0x30C9, 0x30FC, 0x30CA, 0x30C4],
     [0x30DE, 0x30D5, 0x30A3, 0x30F3], [0x30B9, 0x30B3, 0x30FC, 0x30F3], [0x304A, 0x3084, 0x3064]]"

definition k_soup :: "ustr list" where
  "k_soup = [[0x30B9, 0x30FC, 0x30D7], [0x5473, 0x564C, 0x6C41], [0x307F, 0x305D, 0x6C41],
     [0x30DD, 0x30BF, 0x30FC, 0x30B8, 0x30E5], [0x30B7, 0x30C1, 0x30E5, 0x30FC]]"

definition k_nabe :: "ustr list" where
  "k_nabe = [[0x934B], [0x3057, 0x3083, 0x3076], [0x3059, 0x304D, 0x713C],
     [0x30AD, 0x30E0, 0x30C1, 0x934B], [0x3082, 0x3064, 0x934B]]"

definition k_bento :: "ustr list" where
  "k_bento = [[0x5F01, 0x5F53], [0x304A, 0x5F01, 0x5F53]]"

definition k_tsukurioki :: "ustr list" where
  "k_tsukurioki = [[0x4F5C, 0x308A, 0x7F6E, 0x304D], [0x3064, 0x304F, 0x308A, 0x304A, 0x304D],
     [0x5E38, 0x5099, 0x83DC]]"

definition k_asa :: "ustr list" where
  "k_asa = [[0x671D], [0x30E2, 0x30FC, 0x30CB, 0x30F3, 0x30B0], [0x671D, 0x3054, 0x306F, 0x3093]]"

definition k_tsumami :: "ustr list" where
  "k_tsumami = [[0x3064, 0x307E, 0x307F], [0x304A, 0x3064, 0x307E, 0x307F]]"

definition k_niku :: "ustr list" where
  "k_niku = [[0x9D8F], [0x8C5A], [0x725B], [0x3072, 0x304D, 0x8089], [0x304B, 0x3089, 0x63DA, 0x3052],
     [0x5510, 0x63DA, 0x3052], [0x30CF, 0x30F3, 0x30D0, 0x30FC, 0x30B0], [0x751F, 0x59DC, 0x713C]]"

definition k_sakana :: "ustr list" where
  "k_sakana = [[0x9BAD], [0x3055, 0x3051], [0x30B5, 0x30FC, 0x30E2, 0x30F3], [0x9BD6],
     [0x3055, 0x3070], [0x3076, 0x308A], [0x9BDB], [0x3042, 0x3058], [0x3044, 0x308F, 0x3057]]"

definition k_tamago :: "ustr list" where
  "k_tamago = [[0x5375], [0x305F, 0x307E, 0x3054], [0x8C46, 0x8150], [0x7D0D, 0x8C46],
     [0x5927, 0x8C46], [0x539A, 0x63DA, 0x3052]]"

text \<open>
  \<open>guess_category_from_text\<close>. \<open>str.lower\<close> is the standard library's; the classifier takes
  it as the parameter \<open>lower\<close>.
\<close>

definition guess_category_from_text :: "(ustr \<Rightarrow> ustr) \<Rightarrow> ustr option \<Rightarrow> ustr" where
  "guess_category_from_text lower text =
     (let t = lower (or_empty text) in
      if any_in k_pasta t then c_pasta
      else if any_in k_men t then c_men
      else if any_in k_gohan t then c_gohan
      else if any_in k_pan t then c_pan
      else if any_in k_sweets t then c_sweets
      else if any_in k_oyatsu t then c_oyatsu
      else if any_in k_soup t then c_soup
      else if any_in k_nabe t then c_nabe
      else if contains t c_salad then c_salad
      else if any_in k_bento t then c_bento
      else if any_in k_tsukurioki t then c_tsukurioki
      else if any_in k_asa t then c_asa
      else if any_in k_tsumami t then c_tsumami
      else if any_in k_niku t then c_niku
      else if any_in k_sakana t then c_sakana
      else if any_in k_tamago t then c_tamago
      else DEFAULT_CATEGORY)"

text \<open>
  The classifier as the specification words it: an ordered list of rules, each a keyword set
  and a label; the first rule with a keyword that occurs in the text gives the label, and the
  default category is the answer when no rule has one.
\<close>

definition RULES :: "(ustr list \<times> ustr) list" where
  "RULES =
     [(k_pasta, c_pasta), (k_men, c_men), (k_gohan, c_gohan), (k_pan, c_pan),
      (k_sweets, c_sweets), (k_oyatsu, c_oyatsu), (k_soup, c_soup), (k_nabe, c_nabe),
      ([c_salad], c_salad), (k_bento, c_bento), (k_tsukurioki, c_tsukurioki), (k_asa, c_asa),
      (k_tsumami, c_tsumami), (k_niku, c_niku), (k_sakana, c_sakana), (k_tamago, c_tamago)]"

definition classify_by_rules :: "(ustr list \<times> ustr) list \<Rightarrow> ustr \<Rightarrow> ustr" where
  "classify_by_rules rules t =
     (case find (\<lambda>(ks, label). any_in ks t) rules of
        None \<Rightarrow> DEFAULT_CATEGORY
      | Some (ks, label) \<Rightarrow> label)"

section \<open>The world outside the program\<close>

text \<open>
  The exceptions the standard library raises; all of them are subclasses of \<open>Exception\<close>.
  A computation that may raise returns \<open>Inl\<close> of the exception.
\<close>

datatype py_exception =
    ValueError | OSError | URLError | HTTPError | TimeoutError | UnicodeError
  | JSONDecodeError | RecursionError

text \<open>\<open>try: body except Exception: return d\<close>.\<close>

definition except_Exception :: "py_exception + 'a \<Rightarrow> 'a \<Rightarrow> py_exception + 'a" where
  "except_Exception body d = (case body of Inl e \<Rightarrow> Inr d | Inr v \<Rightarrow> Inr v)"

text \<open>
  What \<open>urlparse\<close> returns: reading the property \<open>hostname\<close> may itself raise, and gives
  \<open>None\<close> when the URL has no host.
\<close>

record url_parts =
  scheme :: ustr
  hostname :: "py_exception + ustr option"

text \<open>The five properties of an \<open>ipaddress\<close> object that the validator reads.\<close>

record ip_flags =
  is_private :: bool
  is_loopback :: bool
  is_link_local :: bool
  is_reserved :: bool
  is_multicast :: bool

text \<open>
  An HTTP response: the header \<open>Content-Type\<close> (\<open>None\<close> when absent) and the bytes of the body,
  or the exception that reading them raises. \<open>res.read(n)\<close> returns the first \<open>n\<close> bytes.
\<close>

record response =
  content_type :: "ustr option"
  payload :: "py_exception + int list"

definition read :: "response \<Rightarrow> nat \<Rightarrow> py_exception + int list" where
  "read res n = (case payload res of Inl e \<Rightarrow> Inl e | Inr bytes \<Rightarrow> Inr (take n bytes))"

text \<open>JSON values as \<open>json.loads\<close> returns them; a \<open>dict\<close> is the list of its items.\<close>

datatype json =
    JNull
  | JBool bool
  | JNum int
  | JStr ustr
  | JArr "json list"
  | JObj "(ustr \<times> json) list"

text \<open>
  The standard library and the network, as the program calls them: \<open>urlparse\<close>,
  \<open>socket.gethostbyname\<close>, \<open>ipaddress.ip_address\<close> with the properties read from its result,
  \<open>urllib.request.urlopen\<close> on a request for the URL (with the headers and the timeout of
  the source), \<open>bytes.decode("utf-8", errors="ignore")\<close>, \<open>str.lower\<close>, \<open>json.loads\<close> and
  \<open>urljoin\<close>.
\<close>

record env =
  urlparse :: "ustr \<Rightarrow> py_exception + url_parts"
  gethostbyname :: "ustr \<Rightarrow> py_exception + ustr"
  ip_address :: "ustr \<Rightarrow> py_exception + ip_flags"
  urlopen :: "ustr \<Rightarrow> py_exception + response"
  decode_utf8_ignore :: "int list \<Rightarrow> ustr"
  str_lower :: "ustr \<Rightarrow> ustr"
  json_loads :: "ustr \<Rightarrow> py_exception + json"
  urljoin :: "ustr \<Rightarrow> ustr \<Rightarrow> py_exception + ustr"

section \<open>The URL safety validator\<close>

text \<open>The body of the \<open>try\<close> of \<open>_is_safe_public_http_url\<close>.\<close>

definition is_safe_public_http_url_try :: "env \<Rightarrow> ustr \<Rightarrow> py_exception + bool" where
  "is_safe_public_http_url_try env url =
     (case urlparse env url of
        Inl e \<Rightarrow> Inl e
      | Inr p \<Rightarrow>
          if scheme p \<noteq> u ''http'' \<and> scheme p \<noteq> u ''https'' then Inr False
          else
            (case hostname p of
               Inl e \<Rightarrow> Inl e
             | Inr host \<Rightarrow>
                 if \<not> truthy host then Inr False
                 else if or_empty host = u ''localhost'' then Inr False
                 else
                   (case gethostbyname env (or_empty host) of
                      Inl e \<Rightarrow> Inl e
                    | Inr ip \<Rightarrow>
                        (case ip_address env ip of
                           Inl e \<Rightarrow> Inl e
                         | Inr ip_obj \<Rightarrow>
                             if is_private ip_obj \<or> is_loopback ip_obj \<or> is_link_local ip_obj
                                \<or> is_reserved ip_obj \<or> is_multicast ip_obj
                             then Inr False
                             else Inr True))))"

definition is_safe_public_http_url :: "env \<Rightarrow> ustr \<Rightarrow> py_exception + bool" where
  "is_safe_public_http_url env url = except_Exception (is_safe_public_http_url_try env url) False"

section \<open>The extractors\<close>

text \<open>The character sets \<open>["\']\<close>, \<open>[^"\']\<close> and \<open>[^>]\<close>.\<close>

definition QUOTE :: cclass where
  "QUOTE = OneOf [0x22, 0x27]"

definition NOT_QUOTE :: cclass where
  "NOT_QUOTE = NoneOf [0x22, 0x27]"

definition NOT_GT :: cclass where
  "NOT_GT = NoneOf [0x3E]"

text \<open>
  The pattern of the JSON-LD script blocks, under IGNORECASE and DOTALL:
  \<^verbatim>\<open><script[^>]+type=["\']application/ld\+json["\'][^>]*>(.*?)</script>\<close>
\<close>

definition JSONLD_RE :: rx where
  "JSONLD_RE =
     cat [wordI (u ''<script''), Plus NOT_GT, wordI (u ''type=''), Chr QUOTE,
          wordI (u ''application/ld+json''), Chr QUOTE, Star NOT_GT, Chr (LitI 0x3E),
          Group (LazyStar AnyChar), wordI (u ''</script>'')]"

text \<open>\<open>d.get(k)\<close> on a dict: \<open>None\<close> when the key is absent.\<close>

definition dict_get :: "(ustr \<times> json) list \<Rightarrow> ustr \<Rightarrow> json" where
  "dict_get d k = (case map_of d k of None \<Rightarrow> JNull | Some v \<Rightarrow> v)"

text \<open>\<open>[x for x in xs if isinstance(x, dict)]\<close>.\<close>

fun dicts :: "json list \<Rightarrow> (ustr \<times> json) list list" where
  "dicts [] = []"
| "dicts (JObj d # xs) = d # dicts xs"
| "dicts (x # xs) = dicts xs"

text \<open>The candidate objects of one parsed block.\<close>

definition candidates :: "json \<Rightarrow> (ustr \<times> json) list list" where
  "candidates data =
     (case data of
        JObj d \<Rightarrow> d # (case dict_get d (u ''@graph'') of JArr g \<Rightarrow> dicts g | _ \<Rightarrow> [])
      | JArr xs \<Rightarrow> dicts xs
      | _ \<Rightarrow> [])"

text \<open>
  The body of the loop over the candidates: the name this object makes the function
  return, if it does.
\<close>

definition recipe_name :: "(ustr \<times> json) list \<Rightarrow> ustr option" where
  "recipe_name obj =
     (let t = dict_get obj (u ''@type'');
          types = (case t of JArr ts \<Rightarrow> ts | _ \<Rightarrow> [t])
      in if list_ex (\<lambda>x. x = JStr (u ''Recipe'')) types
         then (case dict_get obj (u ''name'') of
                 JStr name \<Rightarrow> if strip name \<noteq> [] then Some (strip name) else None
               | _ \<Rightarrow> None)
         else None)"

text \<open>The first element of a list for which \<open>f\<close> gives a result, with that result.\<close>

fun first_result :: "('a \<Rightarrow> 'b option) \<Rightarrow> 'a list \<Rightarrow> 'b option" where
  "first_result f [] = None"
| "first_result f (x # xs) = (case f x of Some y \<Rightarrow> Some y | None \<Rightarrow> first_result f xs)"

text \<open>The body of the loop over the script blocks, for the text of one block.\<close>

definition block_name :: "env \<Rightarrow> ustr \<Rightarrow> ustr option" where
  "block_name env g =
     (let blob = strip g in
      if blob = [] then None
      else (case json_loads env blob of
              Inl e \<Rightarrow> None
            | Inr data \<Rightarrow> first_result recipe_name (candidates data)))"

definition extract_recipe_name_from_jsonld :: "env \<Rightarrow> ustr \<Rightarrow> ustr option" where
  "extract_recipe_name_from_jsonld env html =
     first_result (block_name env) (re_finditer JSONLD_RE html)"

text \<open>
  The patterns of the meta tags, under IGNORECASE, for an attribute (\<open>property\<close> or \<open>name\<close>)
  and a key: the attribute before the content,
  \<^verbatim>\<open><meta[^>]+ATTR=["\']KEY["\'][^>]+content=["\']([^"\']+)["\']\<close>
  and the content before the attribute,
  \<^verbatim>\<open><meta[^>]+content=["\']([^"\']+)["\'][^>]+ATTR=["\']KEY["\']\<close>
\<close>

definition META_RE :: "ustr \<Rightarrow> rx \<Rightarrow> rx" where
  "META_RE attr key =
     cat [wordI (u ''<meta''), Plus NOT_GT, wordI attr, Chr (LitI 0x3D), Chr QUOTE, key,
          Chr QUOTE, Plus NOT_GT, wordI (u ''content=''), Chr QUOTE, Group (Plus NOT_QUOTE),
          Chr QUOTE]"

definition META_REV_RE :: "ustr \<Rightarrow> rx \<Rightarrow> rx" where
  "META_REV_RE attr key =
     cat [wordI (u ''<meta''), Plus NOT_GT, wordI (u ''content=''), Chr QUOTE,
          Group (Plus NOT_QUOTE), Chr QUOTE, Plus NOT_GT, wordI attr, Chr (LitI 0x3D),
          Chr QUOTE, key, Chr QUOTE]"

text \<open>The keys: \<open>og:title\<close>, \<open>twitter:title\<close>, \<open>og:image\<close> and \<open>twitter:image(?::src)?\<close>.\<close>

definition TWITTER_IMAGE_KEY :: rx where
  "TWITTER_IMAGE_KEY = cat [wordI (u ''twitter:image''), Opt (wordI (u '':src''))]"

text \<open>\<^verbatim>\<open><title[^>]*>(.*?)</title>\<close> under IGNORECASE and DOTALL.\<close>

definition TITLE_RE :: rx where
  "TITLE_RE =
     cat [wordI (u ''<title''), Star NOT_GT, Chr (LitI 0x3E), Group (LazyStar AnyChar),
          wordI (u ''</title>'')]"

text \<open>
  The cascade \<open>m = re.search(p1, html); if not m: m = re.search(p2, html)\<close> and so on, over
  the patterns in their order.
\<close>

fun search_cascade :: "rx list \<Rightarrow> ustr \<Rightarrow> (nat \<times> nat \<times> cap) option" where
  "search_cascade [] html = None"
| "search_cascade (p # ps) html =
     (case re_search p html of None \<Rightarrow> search_cascade ps html | Some m \<Rightarrow> Some m)"

definition TITLE_META_PATTERNS :: "rx list" where
  "TITLE_META_PATTERNS =
     [META_RE (u ''property'') (wordI (u ''og:title'')),
      META_REV_RE (u ''property'') (wordI (u ''og:title'')),
      META_RE (u ''name'') (wordI (u ''twitter:title'')),
      META_REV_RE (u ''name'') (wordI (u ''twitter:title''))]"

definition IMAGE_META_PATTERNS :: "rx list" where
  "IMAGE_META_PATTERNS =
     [META_RE (u ''property'') (wordI (u ''og:image'')),
      META_REV_RE (u ''property'') (wordI (u ''og:image'')),
      META_RE (u ''name'') TWITTER_IMAGE_KEY,
      META_REV_RE (u ''name'') TWITTER_IMAGE_KEY]"

text \<open>The \<open><title>\<close> part of \<open>extract_og_or_title\<close>.\<close>

definition title_element :: "ustr \<Rightarrow> ustr option" where
  "title_element html =
     (case re_search TITLE_RE html of
        None \<Rightarrow> None
      | Some (st, en, cp) \<Rightarrow>
          (let t = re_sub (Plus Space) (u '' '') (strip (group1 html cp))
           in if t \<noteq> [] then Some t else None))"

definition extract_og_or_title :: "ustr \<Rightarrow> ustr option" where
  "extract_og_or_title html =
     (case search_cascade TITLE_META_PATTERNS html of
        None \<Rightarrow> title_element html
      | Some (st, en, cp) \<Rightarrow>
          (let t = strip (group1 html cp)
           in if t \<noteq> [] then Some t else title_element html))"

section \<open>The structured-data extractor, as specified\<close>

text \<open>
  The candidate objects of a page, in the order of its script blocks and, within a block, in
  the order of the parsed value. A block that is blank, or whose text \<open>json.loads\<close> refuses,
  has no candidates.
\<close>

definition block_candidates :: "env \<Rightarrow> ustr \<Rightarrow> (ustr \<times> json) list list" where
  "block_candidates env g =
     (if strip g = [] then []
      else (case json_loads env (strip g) of Inl e \<Rightarrow> [] | Inr data \<Rightarrow> candidates data))"

definition page_candidates :: "env \<Rightarrow> ustr \<Rightarrow> (ustr \<times> json) list list" where
  "page_candidates env html = concat (map (block_candidates env) (re_finditer JSONLD_RE html))"



section \<open>The lookups\<close>

text \<open>\<open>(res.headers.get("Content-Type") or "").lower()\<close> contains \<open>text/html\<close>.\<close>

definition is_html :: "env \<Rightarrow> response \<Rightarrow> bool" where
  "is_html env res = contains (str_lower env (or_empty (content_type res))) (u ''text/html'')"

text \<open>
  The request of the page and the decoding of at most \<open>limit\<close> bytes of its body:
  \<open>Inr None\<close> stands for the \<open>return None\<close> on a content type that is not HTML.
\<close>

definition fetch_html :: "env \<Rightarrow> ustr \<Rightarrow> nat \<Rightarrow> py_exception + ustr option" where
  "fetch_html env page_url limit =
     (case urlopen env page_url of
        Inl e \<Rightarrow> Inl e
      | Inr res \<Rightarrow>
          if \<not> is_html env res then Inr None
          else (case read res limit of
                  Inl e \<Rightarrow> Inl e
                | Inr raw \<Rightarrow> Inr (Some (decode_utf8_ignore env raw))))"

text \<open>Steps 1 to 3 of \<open>get_og_title\<close> and its fallback, on the decoded page.\<close>

definition title_of_html :: "env \<Rightarrow> ustr \<Rightarrow> ustr option" where
  "title_of_html env html =
     (let title = extract_recipe_name_from_jsonld env html;
          title = (if \<not> truthy title then extract_og_or_title html else title);
          cleaned = clean_dish_title (or_empty title)
      in if truthy cleaned then cleaned
         else (let title = strip (or_empty title)
               in if 2 \<le> length title \<and> length title \<le> 80 then Some title else None))"

definition get_og_title_try :: "env \<Rightarrow> ustr \<Rightarrow> py_exception + ustr option" where
  "get_og_title_try env page_url =
     (case fetch_html env page_url 240000 of
        Inl e \<Rightarrow> Inl e
      | Inr None \<Rightarrow> Inr None
      | Inr (Some html) \<Rightarrow> Inr (title_of_html env html))"

text \<open>
  The function under the decorator. The result is \<open>Inr\<close> of what the function returns, or
  \<open>Inl\<close> of an exception that leaves it.
\<close>

definition get_og_title :: "env \<Rightarrow> ustr \<Rightarrow> py_exception + ustr option" where
  "get_og_title env page_url =
     (if page_url = [] then Inr None
      else
        (case is_safe_public_http_url env (strip page_url) of
           Inl e \<Rightarrow> Inl e
         | Inr safe \<Rightarrow>
             if \<not> safe then Inr None
             else except_Exception (get_og_title_try env (strip page_url)) None))"

text \<open>The image of the decoded page, from the search of the meta tags on.\<close>

definition image_of_html :: "env \<Rightarrow> ustr \<Rightarrow> ustr \<Rightarrow> py_exception + ustr option" where
  "image_of_html env page_url html =
     (case search_cascade IMAGE_META_PATTERNS html of
        None \<Rightarrow> Inr None
      | Some (st, en, cp) \<Rightarrow>
          (let img = strip (group1 html cp) in
           if img = [] then Inr None
           else (case urljoin env page_url img of
                   Inl e \<Rightarrow> Inl e
                 | Inr img \<Rightarrow>
                     if \<not> (startswith img (u ''http://'') \<or> startswith img (u ''https://''))
                     then Inr None
                     else Inr (Some img))))"

definition get_og_image_try :: "env \<Rightarrow> ustr \<Rightarrow> py_exception + ustr option" where
  "get_og_image_try env page_url =
     (case fetch_html env page_url 220000 of
        Inl e \<Rightarrow> Inl e
      | Inr None \<Rightarrow> Inr None
      | Inr (Some html) \<Rightarrow> image_of_html env page_url html)"

definition get_og_image :: "env \<Rightarrow> ustr \<Rightarrow> py_exception + ustr option" where
  "get_og_image env page_url =
     (if page_url = [] then Inr None
      else
        (case is_safe_public_http_url env (strip page_url) of
           Inl e \<Rightarrow> Inl e
         | Inr safe \<Rightarrow>
             if \<not> safe then Inr None
             else except_Exception (get_og_image_try env (strip page_url)) None))"

text \<open>The endpoint \<open>/meta\<close>: the title and the category suggested for it.\<close>

definition meta :: "env \<Rightarrow> ustr \<Rightarrow> py_exception + (ustr option \<times> ustr)" where
  "meta env url =
     (case get_og_title env url of
        Inl e \<Rightarrow> Inl e
      | Inr title \<Rightarrow> Inr (title, guess_category_from_text (str_lower env) (Some (or_empty title))))"

section \<open>The raw title\<close>

text \<open>
  The value of the variable \<open>title\<close> of \<open>get_og_title\<close> after its steps 1 and 2: the JSON-LD
  recipe name, or else what the meta tags and the title element give.
\<close>

definition extracted_title :: "env \<Rightarrow> ustr \<Rightarrow> ustr option" where
  "extracted_title env html =
     (let title = extract_recipe_name_from_jsonld env html
      in if \<not> truthy title then extract_og_or_title html else title)"

section \<open>The caches\<close>









section \<open>The requests of a lookup\<close>



section \<open>An example world\<close>

text \<open>
  A world for the examples: every URL is parsed as an \<open>https\<close> URL of the host
  \<open>example.com\<close>, the host resolves to an address with none of the five properties, and every
  request is answered with the ASCII bytes \<open>page\<close> as \<open>text/html\<close>. For ASCII bytes the
  decoded string has the bytes as its code points, and \<open>lower\<close> changes the letters A to Z
  only. \<open>json.loads\<close> refuses every text, and \<open>urljoin\<close> returns the second URL (as it does
  for an absolute one).
\<close>

definition example_env :: "int list \<Rightarrow> env" where
  "example_env page =
     \<lparr>urlparse = (\<lambda>url. Inr \<lparr>scheme = u ''https'', hostname = Inr (Some (u ''example.com''))\<rparr>),
      gethostbyname = (\<lambda>host. Inr (u ''93.184.216.34'')),
      ip_address = (\<lambda>ip. Inr \<lparr>is_private = False, is_loopback = False, is_link_local = False,
                               is_reserved = False, is_multicast = False\<rparr>),
      urlopen = (\<lambda>url. Inr \<lparr>content_type = Some (u ''text/html''), payload = Inr page\<rparr>),
      decode_utf8_ignore = (\<lambda>raw. raw),
      str_lower = map ascii_lower,
      json_loads = (\<lambda>s. Inl JSONDecodeError),
      urljoin = (\<lambda>base url. Inr url)\<rparr>"

section \<open>Example pages\<close>











section \<open>Properties of the categories\<close>

lemma card_CATEGORY_KEYS: "card CATEGORY_KEYS = 19"
proof -
  have "distinct (map fst CATEGORIES)"
    by (simp add: CATEGORIES_def c_gohan_def c_pasta_def c_men_def c_pan_def c_niku_def
        c_sakana_def c_tamago_def c_okazu_def c_salad_def c_soup_def c_asa_def c_bento_def
        c_tsukurioki_def c_tsumami_def c_sweets_def c_oyatsu_def c_nabe_def c_drink_def
        c_sonota_def)
  then have "card CATEGORY_KEYS = length (map fst CATEGORIES)"
    unfolding CATEGORY_KEYS_def by (rule distinct_card)
  then show ?thesis by (simp add: CATEGORIES_def)
qed

lemma guess_category_in_keys: "guess_category_from_text lower text \<in> CATEGORY_KEYS"
  by (simp add: guess_category_from_text_def CATEGORY_KEYS_def CATEGORIES_def
      DEFAULT_CATEGORY_def Let_def)

lemma guess_category_first_rule:
  "guess_category_from_text lower text = classify_by_rules RULES (lower (or_empty text))"
  by (simp add: guess_category_from_text_def classify_by_rules_def RULES_def Let_def any_in_def)

lemma normalize_category_in_keys: "normalize_category c \<in> CATEGORY_KEYS"
  by (simp add: normalize_category_def Let_def CATEGORY_KEYS_def CATEGORIES_def)

section \<open>Properties of the validator and of the lookups\<close>

lemma is_safe_never_raises: "\<exists>b. is_safe_public_http_url env url = Inr b"
  by (cases "is_safe_public_http_url_try env url")
     (auto simp: is_safe_public_http_url_def except_Exception_def)

lemma is_safe_iff:
  "is_safe_public_http_url env url = Inr True \<longleftrightarrow>
     (\<exists>p host ip f.
        urlparse env url = Inr p \<and> (scheme p = u ''http'' \<or> scheme p = u ''https'') \<and>
        hostname p = Inr (Some host) \<and> host \<noteq> [] \<and> host \<noteq> u ''localhost'' \<and>
        gethostbyname env host = Inr ip \<and> ip_address env ip = Inr f \<and>
        \<not> is_private f \<and> \<not> is_loopback f \<and> \<not> is_link_local f \<and> \<not> is_reserved f \<and>
        \<not> is_multicast f)"
  by (auto simp: is_safe_public_http_url_def is_safe_public_http_url_try_def
      except_Exception_def truthy_def or_empty_def split: sum.splits option.splits)



lemma clean_dish_title_length:
  "clean_dish_title raw = Some t \<Longrightarrow> 2 \<le> length t \<and> length t \<le> 60"
  by (auto simp: clean_dish_title_def Let_def split: if_splits)

lemma title_of_html_length:
  "title_of_html env html = Some t \<Longrightarrow> 2 \<le> length t \<and> length t \<le> 80"
  using clean_dish_title_length[of _ t]
  by (fastforce simp: title_of_html_def Let_def truthy_def split: if_splits option.splits)

lemma clean_empty: "clean_dish_title [] = None"
  by (simp add: clean_dish_title_def)

lemma title_of_html_no_signal:
  "extract_recipe_name_from_jsonld env html = None \<Longrightarrow> extract_og_or_title html = None \<Longrightarrow>
   title_of_html env html = None"
  by (simp add: title_of_html_def truthy_def or_empty_def clean_empty strip_def)

lemma get_og_title_eq:
  "get_og_title env url =
     Inr (if url = [] \<or> is_safe_public_http_url env (strip url) \<noteq> Inr True then None
          else (case urlopen env (strip url) of
                  Inl e \<Rightarrow> None
                | Inr res \<Rightarrow>
                    if \<not> is_html env res then None
                    else (case payload res of
                            Inl e \<Rightarrow> None
                          | Inr body \<Rightarrow>
                              title_of_html env (decode_utf8_ignore env (take 240000 body)))))"
  using is_safe_never_raises[of env "strip url"]
  by (auto simp: get_og_title_def get_og_title_try_def fetch_html_def read_def
      except_Exception_def split: sum.splits option.splits)

lemma get_og_image_eq:
  "get_og_image env url =
     Inr (if url = [] \<or> is_safe_public_http_url env (strip url) \<noteq> Inr True then None
          else (case urlopen env (strip url) of
                  Inl e \<Rightarrow> None
                | Inr res \<Rightarrow>
                    if \<not> is_html env res then None
                    else (case payload res of
                            Inl e \<Rightarrow> None
                          | Inr body \<Rightarrow>
                              (case image_of_html env (strip url)
                                      (decode_utf8_ignore env (take 220000 body)) of
                                 Inl e \<Rightarrow> None
                               | Inr img \<Rightarrow> img))))"
  using is_safe_never_raises[of env "strip url"]
  by (auto simp: get_og_image_def get_og_image_try_def fetch_html_def read_def
      except_Exception_def split: sum.splits option.splits)

lemma guess_category_absent:
  "lower [] = [] \<Longrightarrow> guess_category_from_text lower None = DEFAULT_CATEGORY"
  by (simp add: guess_category_from_text_def or_empty_def any_in_def
      k_pasta_def k_men_def k_gohan_def k_pan_def k_sweets_def k_oyatsu_def k_soup_def k_nabe_def
      k_bento_def k_tsukurioki_def k_asa_def k_tsumami_def k_niku_def k_sakana_def k_tamago_def
      c_salad_def)

lemma meta_absent:
  "str_lower env [] = [] \<Longrightarrow> get_og_title env url = Inr None \<Longrightarrow>
   meta env url = Inr (None, DEFAULT_CATEGORY)"
  using guess_category_absent[of "str_lower env"]
  by (simp add: meta_def or_empty_def guess_category_from_text_def)

section \<open>The lookups in the example world\<close>

lemma text_html_is_html: "contains (map ascii_lower (u ''text/html'')) (u ''text/html'')"
  by code_simp

lemma example_is_safe: "is_safe_public_http_url (example_env page) url = Inr True"
proof -
  have a: "u ''https'' \<noteq> u ''http''" by code_simp
  have b: "u ''example.com'' \<noteq> u ''localhost''" by code_simp
  have c: "u ''example.com'' \<noteq> []" by code_simp
  show ?thesis
    using a b c
    by (simp add: is_safe_public_http_url_def is_safe_public_http_url_try_def example_env_def
        except_Exception_def truthy_def or_empty_def)
qed

lemma example_fetch_html:
  "length page \<le> limit \<Longrightarrow> fetch_html (example_env page) url limit = Inr (Some page)"
  using text_html_is_html
  by (simp add: fetch_html_def example_env_def is_html_def or_empty_def read_def)

lemma example_get_og_title:
  "url \<noteq> [] \<Longrightarrow> length page \<le> 240000 \<Longrightarrow>
   get_og_title (example_env page) url = Inr (title_of_html (example_env page) page)"
  by (simp add: get_og_title_def example_is_safe get_og_title_try_def example_fetch_html
      except_Exception_def)

lemma example_url_nonempty: "u ''https://example.com/'' \<noteq> []"
  by code_simp

section \<open>Properties of the structured-data extractor\<close>

lemma first_result_append:
  "first_result f (xs @ ys) = (case first_result f xs of Some y \<Rightarrow> Some y | None \<Rightarrow> first_result f ys)"
  by (induction xs) (auto split: option.splits)

lemma first_result_concat:
  "first_result f (concat xss) = first_result (first_result f) xss"
  by (induction xss) (auto simp: first_result_append split: option.splits)

lemma first_result_map:
  "first_result f (map g xs) = first_result (\<lambda>x. f (g x)) xs"
  by (induction xs) (auto split: option.splits)

lemma block_name_candidates:
  "block_name env g = first_result recipe_name (block_candidates env g)"
  by (simp add: block_name_def block_candidates_def Let_def split: sum.splits)

lemma extract_recipe_name_page_candidates:
  "extract_recipe_name_from_jsonld env html = first_result recipe_name (page_candidates env html)"
proof -
  have "block_name env = (\<lambda>g. first_result recipe_name (block_candidates env g))"
    by (rule ext) (rule block_name_candidates)
  then show ?thesis
    by (simp add: extract_recipe_name_from_jsonld_def page_candidates_def first_result_concat
        first_result_map)
qed










lemma first_result_Some:
  "first_result f xs = Some y \<Longrightarrow> \<exists>x \<in> set xs. f x = Some y"
  by (induction xs) (auto split: option.splits)

lemma recipe_name_nonempty: "recipe_name obj = Some n \<Longrightarrow> n \<noteq> [] \<and> (\<exists>m. n = strip m)"
  by (auto simp: recipe_name_def Let_def split: if_splits json.splits)

lemma extract_recipe_name_nonempty:
  "extract_recipe_name_from_jsonld env html = Some n \<Longrightarrow> n \<noteq> [] \<and> (\<exists>m. n = strip m)"
  unfolding extract_recipe_name_page_candidates
  by (blast dest: first_result_Some recipe_name_nonempty)

section \<open>Properties of the meta-tag extractors\<close>




section \<open>The two ways to a title\<close>

lemma title_of_html_paths:
  "title_of_html env html =
     (case clean_dish_title (or_empty (extracted_title env html)) of
        Some c \<Rightarrow> Some c
      | None \<Rightarrow>
          (let t = strip (or_empty (extracted_title env html))
           in if 2 \<le> length t \<and> length t \<le> 80 then Some t else None))"
proof (cases "clean_dish_title (or_empty (extracted_title env html))")
  case None
  then show ?thesis
    by (simp add: title_of_html_def extracted_title_def Let_def truthy_def)
next
  case (Some c)
  then have "c \<noteq> []"
    using clean_dish_title_length[of _ c] by fastforce
  with Some show ?thesis
    by (simp add: title_of_html_def extracted_title_def Let_def truthy_def)
qed

lemma get_og_title_from_html:
  "get_og_title env url = Inr (Some t) \<Longrightarrow> \<exists>html. title_of_html env html = Some t"
  by (auto simp: get_og_title_def get_og_title_try_def except_Exception_def
      split: if_splits sum.splits option.splits)

lemma get_og_title_length:
  "get_og_title env url = Inr (Some t) \<Longrightarrow> 2 \<le> length t \<and> length t \<le> 80"
  using get_og_title_from_html[of env url t] title_of_html_length[of env _ t]
  by blast

lemma title_of_html_path_lengths:
  "title_of_html env html = Some t \<Longrightarrow>
     (case clean_dish_title (or_empty (extracted_title env html)) of
        Some c \<Rightarrow> t = c \<and> 2 \<le> length t \<and> length t \<le> 60
      | None \<Rightarrow>
          t = strip (or_empty (extracted_title env html)) \<and> 2 \<le> length t \<and> length t \<le> 80)"
  using title_of_html_paths[of env html]
    clean_dish_title_length[of "or_empty (extracted_title env html)"]
  by (auto simp: Let_def split: option.splits if_splits)

section \<open>Properties of the caches\<close>





lemma map_of_fresh: "k \<notin> set ks \<Longrightarrow> map_of (map (\<lambda>k. (k, g k)) ks) k = None"
  by (simp add: map_of_eq_None_iff image_image)

lemma map_of_present: "k \<in> set ks \<Longrightarrow> map_of (map (\<lambda>k. (k, g k)) ks) k = Some (g k)"
  by (induction ks) auto












section \<open>Properties of the string functions\<close>

lemma strip_self_iff:
  "strip s = s \<longleftrightarrow> s = [] \<or> (\<not> isspace (hd s) \<and> \<not> isspace (last s))"
proof
  assume a: "strip s = s"
  show "s = [] \<or> (\<not> isspace (hd s) \<and> \<not> isspace (last s))"
  proof (cases "s = []")
    case True
    then show ?thesis by simp
  next
    case False
    have l1: "length (dropWhile isspace (rev (dropWhile isspace s))) \<le> length (dropWhile isspace s)"
      using length_dropWhile_le[of isspace "rev (dropWhile isspace s)"] by simp
    have l2: "length (dropWhile isspace s) \<le> length s"
      by (rule length_dropWhile_le)
    have "length (strip s) = length s" using a by simp
    then have e: "length (dropWhile isspace (rev (dropWhile isspace s))) = length s"
      by (simp add: strip_def)
    with l1 l2 have "length (dropWhile isspace s) = length s" by linarith
    then have d1: "dropWhile isspace s = s"
      by (metis append_eq_conv_conj length_append takeWhile_dropWhile_id add_cancel_left_left length_0_conv append_Nil)
    with e have "length (dropWhile isspace (rev s)) = length (rev s)" by simp
    then have d2: "dropWhile isspace (rev s) = rev s"
      by (metis append_eq_conv_conj length_append takeWhile_dropWhile_id add_cancel_left_left length_0_conv append_Nil)
    from d1 False have "\<not> isspace (hd s)"
      by (simp add: dropWhile_eq_self_iff)
    moreover from d2 False have "\<not> isspace (last s)"
      by (simp add: dropWhile_eq_self_iff hd_rev)
    ultimately show ?thesis by simp
  qed
next
  assume "s = [] \<or> (\<not> isspace (hd s) \<and> \<not> isspace (last s))"
  then show "strip s = s"
  proof
    assume "s = []"
    then show ?thesis by (simp add: strip_def)
  next
    assume b: "\<not> isspace (hd s) \<and> \<not> isspace (last s)"
    then have d1: "dropWhile isspace s = s"
      by (simp add: dropWhile_eq_self_iff)
    have d2: "dropWhile isspace (rev s) = rev s"
      using b by (cases "s = []") (simp_all add: dropWhile_eq_self_iff hd_rev)
    show ?thesis by (simp add: strip_def d1 d2)
  qed
qed

lemma strip_ends:
  "strip s \<noteq> [] \<Longrightarrow> \<not> isspace (hd (strip s)) \<and> \<not> isspace (last (strip s))"
proof -
  assume n: "strip s \<noteq> []"
  let ?a = "dropWhile isspace s"
  let ?b = "dropWhile isspace (rev ?a)"
  have s: "strip s = rev ?b" by (simp add: strip_def)
  with n have bn: "?b \<noteq> []" by simp
  then have hb: "\<not> isspace (hd ?b)" by (rule hd_dropWhile)
  have an: "?a \<noteq> []"
  proof
    assume e: "?a = []"
    have "?b = dropWhile isspace (rev [])" by (simp only: e)
    with bn show False by simp
  qed
  then have ha: "\<not> isspace (hd ?a)" by (rule hd_dropWhile)
  have "last ?b = last (rev ?a)"
    using bn by (metis takeWhile_dropWhile_id last_appendR)
  then have lb: "last ?b = hd ?a"
    using an by (simp add: last_rev)
  show ?thesis
    using hb ha lb bn by (simp add: s hd_rev last_rev)
qed

lemma strip_idem: "strip (strip s) = strip s"
  using strip_ends[of s] by (subst strip_self_iff) blast

section \<open>Properties of the matcher\<close>

lemma run_le: "i \<le> length s \<Longrightarrow> i + run c s i \<le> length s"
  using length_takeWhile_le[of "cmatch c" "drop i s"] by (simp add: run_def)

lemma run_nth: "j < run c s i \<Longrightarrow> cmatch c (s ! (i + j))"
proof -
  assume a: "j < run c s i"
  then have b: "j < length (takeWhile (cmatch c) (drop i s))" by (simp add: run_def)
  then have "takeWhile (cmatch c) (drop i s) ! j \<in> set (takeWhile (cmatch c) (drop i s))"
    by (rule nth_mem)
  then have "cmatch c (takeWhile (cmatch c) (drop i s) ! j)"
    by (blast dest: set_takeWhileD)
  then have c: "cmatch c (drop i s ! j)"
    using b by (simp add: takeWhile_nth)
  have "j < length (drop i s)"
    using b length_takeWhile_le[of "cmatch c" "drop i s"] by linarith
  then show ?thesis using c by simp
qed

lemma run_zero: "i < length s \<Longrightarrow> \<not> cmatch c (s ! i) \<Longrightarrow> run c s i = 0"
  by (cases "drop i s") (auto simp: run_def hd_drop_conv_nth dest: arg_cong[where f = hd])

lemma run_zero_end: "length s \<le> i \<Longrightarrow> run c s i = 0"
  by (simp add: run_def)

lemma search_at_Some:
  "search_at r s ps = Some (st, en, cq) \<Longrightarrow>
   st \<in> set ps \<and> (\<exists>rest. rmatch r s st None = (en, cq) # rest)"
  by (induction ps) (auto split: list.splits)

lemma search_at_None:
  "(\<And>i. i \<in> set ps \<Longrightarrow> rmatch r s i None = []) \<Longrightarrow> search_at r s ps = None"
  by (induction ps) auto

lemma re_search_from_None:
  assumes "\<And>i. i \<le> length s \<Longrightarrow> rmatch r s i None = []"
  shows "re_search_from r s pos = None"
  unfolding re_search_from_def
proof (rule search_at_None)
  fix i
  assume "i \<in> set [pos ..< Suc (length s)]"
  then have "i \<le> length s"
    by (simp only: set_upt atLeastLessThan_iff less_Suc_eq_le)
  then show "rmatch r s i None = []" by (rule assms)
qed

lemma re_sub_no_match:
  "(\<And>i. i \<le> length s \<Longrightarrow> rmatch r s i None = []) \<Longrightarrow> re_sub r repl s = s"
  unfolding re_sub_def by (subst sub_loop.simps) (simp add: re_search_from_None)

lemma re_split_no_match:
  "(\<And>i. i \<le> length s \<Longrightarrow> rmatch r s i None = []) \<Longrightarrow> re_split r s = [s]"
  unfolding re_split_def by (subst split_loop.simps) (simp add: re_search_from_None)

lemma rmatch_Plus:
  "rmatch (Plus c) s i cp = map (\<lambda>j. (i + j, cp)) (rev [1 ..< Suc (run c s i)])"
  by (simp add: Plus_def Let_def)

lemma rmatch_Star:
  "rmatch (Star c) s i cp = map (\<lambda>j. (i + j, cp)) (rev [0 ..< Suc (run c s i)])"
  by (simp add: Star_def Let_def)

lemma plus_search:
  assumes "re_search_from (Plus c) s pos = Some (st, en, cq)"
  shows "pos \<le> st \<and> st < en \<and> en \<le> length s \<and> cmatch c (s ! st) \<and> cmatch c (s ! (en - 1))"
proof -
  from assms have b: "pos \<le> st \<and> st \<le> length s"
    by (rule re_search_from_bounds)
  from assms obtain rest where m: "rmatch (Plus c) s st None = (en, cq) # rest"
    unfolding re_search_from_def by (blast dest: search_at_Some)
  have k: "0 < run c s st"
  proof (rule ccontr)
    assume "\<not> 0 < run c s st"
    then have "rmatch (Plus c) s st None = []" by (simp add: rmatch_Plus)
    with m show False by simp
  qed
  then have "rev [1 ..< Suc (run c s st)] = run c s st # rev [1 ..< run c s st]"
    by (simp add: upt_Suc)
  with m have e: "en = st + run c s st"
    by (simp add: rmatch_Plus)
  have "cmatch c (s ! (st + 0))" using k by (rule run_nth)
  moreover have "cmatch c (s ! (st + (run c s st - 1)))"
    using k by (intro run_nth) simp
  moreover have "en \<le> length s" using run_le[of st s c] b e by simp
  ultimately show ?thesis using b k e by simp
qed

section \<open>The raw title is trimmed\<close>

lemma collapse_last:
  "\<not> cmatch c (last s) \<Longrightarrow> pos < length s \<Longrightarrow>
   sub_loop (Plus c) repl s pos \<noteq> [] \<and> last (sub_loop (Plus c) repl s pos) = last s"
proof (induction "Plus c" repl s pos rule: sub_loop.induct)
  case (1 repl s pos)
  show ?case
  proof (cases "re_search_from (Plus c) s pos")
    case None
    then show ?thesis
      using "1.prems" by (subst sub_loop.simps, subst sub_loop.simps) simp
  next
    case (Some m)
    obtain st en cq where m: "m = (st, en, cq)" by (cases m)
    note f = plus_search[OF Some[unfolded m]]
    have ne: "s \<noteq> []" using "1.prems" by auto
    have "en - 1 \<noteq> length s - 1"
      using f "1.prems"(1) ne by (auto simp: last_conv_nth)
    then have lt: "en < length s" using f by linarith
    have ih: "sub_loop (Plus c) repl s en \<noteq> [] \<and> last (sub_loop (Plus c) repl s en) = last s"
      using "1.hyps"(1)[OF Some[unfolded m] refl refl _ "1.prems"(1) lt] f by simp
    show ?thesis
      using f ih Some m
      by (subst sub_loop.simps, subst (2) sub_loop.simps) simp
  qed
qed

lemma collapse_hd:
  assumes "s \<noteq> []" "\<not> cmatch c (hd s)"
  shows "sub_loop (Plus c) repl s 0 = [] \<or> hd (sub_loop (Plus c) repl s 0) = hd s"
proof (cases "re_search_from (Plus c) s 0")
  case None
  then show ?thesis by (subst sub_loop.simps, subst sub_loop.simps) simp
next
  case (Some m)
  obtain st en cq where m: "m = (st, en, cq)" by (cases m)
  note f = plus_search[OF Some[unfolded m]]
  have "st \<noteq> 0"
  proof
    assume "st = 0"
    with f have "cmatch c (s ! 0)" by simp
    with assms show False by (simp add: hd_conv_nth)
  qed
  then have "take st s \<noteq> [] \<and> hd (take st s) = hd s"
    using assms by (cases s) (auto simp: take_Cons')
  then show ?thesis
    using f Some m by (subst sub_loop.simps, subst (2) sub_loop.simps) (simp add: hd_append)
qed

lemma collapse_empty: "re_sub (Plus c) repl [] = []"
  by (rule re_sub_no_match) (simp add: rmatch_Plus run_def)

lemma collapse_strip:
  "strip s = s \<Longrightarrow> strip (re_sub (Plus Space) repl s) = re_sub (Plus Space) repl s"
proof (cases "s = []")
  case True
  then show ?thesis by (simp add: collapse_empty strip_def)
next
  case False
  assume "strip s = s"
  with False have e: "\<not> isspace (hd s)" "\<not> isspace (last s)"
    by (simp_all add: strip_self_iff)
  have l: "sub_loop (Plus Space) repl s 0 \<noteq> [] \<and> last (sub_loop (Plus Space) repl s 0) = last s"
    using collapse_last[of Space s 0 repl] e False by simp
  have h: "hd (sub_loop (Plus Space) repl s 0) = hd s"
    using collapse_hd[of s Space repl] e False l by simp
  show ?thesis
    using l h e by (simp add: strip_self_iff re_sub_def)
qed

lemma title_element_trimmed: "title_element html = Some t \<Longrightarrow> strip t = t"
  by (auto simp: title_element_def Let_def collapse_strip strip_idem
      split: option.splits if_splits)

lemma extract_og_or_title_trimmed: "extract_og_or_title html = Some t \<Longrightarrow> strip t = t"
  by (auto simp: extract_og_or_title_def Let_def strip_idem title_element_trimmed
      split: option.splits if_splits)

lemma extracted_title_trimmed:
  "strip (or_empty (extracted_title env html)) = or_empty (extracted_title env html)"
proof (cases "extracted_title env html")
  case None
  then show ?thesis by (simp add: or_empty_def strip_def)
next
  case (Some t)
  then have "extract_recipe_name_from_jsonld env html = Some t \<or> extract_og_or_title html = Some t"
    by (auto simp: extracted_title_def Let_def split: if_splits)
  then have "strip t = t"
    using extract_recipe_name_nonempty[of env html t] extract_og_or_title_trimmed[of html t]
      strip_idem
    by auto
  with Some show ?thesis by (simp add: or_empty_def)
qed

lemma get_og_title_fetched:
  "url \<noteq> [] \<Longrightarrow> is_safe_public_http_url env (strip url) = Inr True \<Longrightarrow>
   fetch_html env (strip url) 240000 = Inr (Some html) \<Longrightarrow>
   get_og_title env url = Inr (title_of_html env html)"
  by (simp add: get_og_title_def get_og_title_try_def except_Exception_def)


section \<open>Matches and end positions\<close>

lemma ends_rmatch: "fst ` set (rmatch r s i cp) = ends r s i"
proof (induction r arbitrary: i cp)
  case (Seq a b)
  have "fst ` set (rmatch (Seq a b) s i cp)
      = (\<Union>p \<in> set (rmatch a s i cp). fst ` set (rmatch b s (fst p) (snd p)))"
    by (auto simp: split_beta)
  also have "\<dots> = (\<Union>p \<in> set (rmatch a s i cp). ends b s (fst p))"
    by (simp add: Seq.IH(2))
  also have "\<dots> = (\<Union>j \<in> fst ` set (rmatch a s i cp). ends b s j)"
    by auto
  finally show ?case by (simp add: Seq.IH(1))
next
  case (Rep c m n)
  show ?case by (auto simp: Let_def image_iff split: option.splits)
next
  case (LazyStar c)
  show ?case by (auto simp: image_iff)
next
  case (Group a)
  have "fst ` set (rmatch (Group a) s i cp) = fst ` set (rmatch a s i cp)"
    by (simp add: image_image split_beta)
  then show ?case by (simp add: Group.IH)
qed (auto simp: image_Un)

lemma rmatch_empty_iff: "rmatch r s i cp = [] \<longleftrightarrow> ends r s i = {}"
  using ends_rmatch[of r s i cp] by (cases "rmatch r s i cp") auto

lemma ends_cat_Cons: "ends (cat (r # rs)) s i = (\<Union>j \<in> ends r s i. ends (cat rs) s j)"
  by (cases rs) simp_all

lemma ends_alts_Cons: "rs \<noteq> [] \<Longrightarrow> ends (alts (r # rs)) s i = ends r s i \<union> ends (alts rs) s i"
  by (cases rs) simp_all

lemma ends_alts_single: "ends (alts [r]) s i = ends r s i"
  by simp

lemma ends_word:
  "ends (word w) s i =
     (if take (length w) (drop i s) = w then {i + length w} else {})"
proof (induction w arbitrary: i)
  case Nil
  then show ?case by (simp add: word_def)
next
  case (Cons c w)
  have e: "ends (word (c # w)) s i = (\<Union>j \<in> ends (Chr (Lit c)) s i. ends (word w) s j)"
    using ends_cat_Cons[of "Chr (Lit c)" "map (\<lambda>c. Chr (Lit c)) w" s i]
    by (simp add: word_def)
  show ?case
  proof (cases "i < length s")
    case True
    then have d: "drop i s = s ! i # drop (Suc i) s"
      by (simp add: Cons_nth_drop_Suc)
    show ?thesis
      using True by (auto simp: e Cons.IH d)
  next
    case False
    then show ?thesis by (simp add: e)
  qed
qed

lemma ends_Star: "ends (Star c) s i = {i + j | j. j \<le> run c s i}"
  by (simp add: Star_def)

lemma ends_Plus: "ends (Plus c) s i = {i + j | j. 1 \<le> j \<and> j \<le> run c s i}"
  by (simp add: Plus_def)

lemma no_match_sub: "(\<And>i. ends r s i = {}) \<Longrightarrow> re_sub r repl s = s"
  by (rule re_sub_no_match) (simp add: rmatch_empty_iff)

lemma no_match_split: "(\<And>i. ends r s i = {}) \<Longrightarrow> re_split r s = [s]"
  by (rule re_split_no_match) (simp add: rmatch_empty_iff)

section \<open>Properties of the title normalizer\<close>

lemma single_spacedD:
  "single_spaced t \<Longrightarrow> i < length t \<Longrightarrow> isspace (t ! i) \<Longrightarrow>
   t ! i = 0x20 \<and> 0 < i \<and> Suc i < length t \<and> \<not> isspace (t ! Suc i)"
  by (simp add: single_spaced_def list_all_iff)

lemma single_spaced_run:
  assumes "single_spaced t"
  shows "run Space t i = (if i < length t \<and> isspace (t ! i) then 1 else 0)"
proof (cases "i < length t \<and> isspace (t ! i)")
  case True
  then have n: "Suc i < length t \<and> \<not> isspace (t ! Suc i)"
    using single_spacedD[OF assms, of i] by simp
  have d: "drop i t = t ! i # t ! Suc i # drop (Suc (Suc i)) t"
    using True n by (simp add: Cons_nth_drop_Suc)
  show ?thesis
    using True n by (simp add: run_def d)
next
  case False
  then show ?thesis
    using run_zero[of i t Space] run_zero_end[of t i Space] by (cases "i < length t") auto
qed

lemma single_spaced_ends:
  assumes "single_spaced t" "t \<noteq> []"
  shows "\<not> isspace (hd t)" "\<not> isspace (last t)"
proof -
  show "\<not> isspace (hd t)"
    using single_spacedD[OF assms(1), of 0] assms(2) by (auto simp: hd_conv_nth)
  show "\<not> isspace (last t)"
    using single_spacedD[OF assms(1), of "length t - 1"] assms(2)
    by (auto simp: last_conv_nth)
qed

lemma single_spaced_strip: "single_spaced t \<Longrightarrow> strip t = t"
  using single_spaced_ends[of t] by (cases "t = []") (simp_all add: strip_self_iff)

lemma plus_search_end:
  assumes "re_search_from (Plus c) s pos = Some (st, en, cq)"
  shows "en = st + run c s st"
proof -
  from assms obtain rest where m: "rmatch (Plus c) s st None = (en, cq) # rest"
    unfolding re_search_from_def by (blast dest: search_at_Some)
  have k: "0 < run c s st"
  proof (rule ccontr)
    assume "\<not> 0 < run c s st"
    then have "rmatch (Plus c) s st None = []" by (simp add: rmatch_Plus)
    with m show False by simp
  qed
  then have "rev [1 ..< Suc (run c s st)] = run c s st # rev [1 ..< run c s st]"
    by (simp add: upt_Suc)
  with m show ?thesis
    by (simp add: rmatch_Plus)
qed

lemma drop_split_at:
  "pos \<le> st \<Longrightarrow> st < length t \<Longrightarrow>
   take (st - pos) (drop pos t) @ t ! st # drop (Suc st) t = drop pos t"
  using id_take_nth_drop[of "st - pos" "drop pos t"] by simp

lemma collapse_single_spaced:
  "single_spaced t \<Longrightarrow> sub_loop (Plus Space) [0x20] t pos = drop pos t"
proof (induction "Plus Space" "[0x20 :: int]" t pos rule: sub_loop.induct)
  case (1 t pos)
  show ?case
  proof (cases "re_search_from (Plus Space) t pos")
    case None
    then show ?thesis by (subst sub_loop.simps) simp
  next
    case (Some m)
    obtain st en cq where m: "m = (st, en, cq)" by (cases m)
    note f = plus_search[OF Some[unfolded m]]
    note e = plus_search_end[OF Some[unfolded m]]
    have lt: "st < length t" using f by linarith
    have sp: "isspace (t ! st)" using f by simp
    have en: "en = Suc st"
      using e single_spaced_run[OF "1.prems", of st] lt sp by simp
    have c: "t ! st = 0x20"
      using single_spacedD[OF "1.prems" lt sp] by simp
    have ih: "sub_loop (Plus Space) [0x20] t en = drop en t"
      using "1.hyps"(1)[OF Some[unfolded m] refl refl _ "1.prems"] f by simp
    have "sub_loop (Plus Space) [0x20] t pos
        = take (st - pos) (drop pos t) @ [0x20] @ sub_loop (Plus Space) [0x20] t en"
      using Some m f by (subst sub_loop.simps) simp
    also have "\<dots> = take (st - pos) (drop pos t) @ t ! st # drop (Suc st) t"
      using ih by (simp add: en c del: sub_loop.simps)
    also have "\<dots> = drop pos t"
      using f lt by (intro drop_split_at) simp_all
    finally show ?thesis .
  qed
qed

lemma clean_step1: "single_spaced t \<Longrightarrow> strip (re_sub (Plus Space) (u '' '') t) = t"
proof -
  assume a: "single_spaced t"
  have "u '' '' = [0x20]" by (simp add: u_def)
  then show ?thesis
    using collapse_single_spaced[OF a, of 0] single_spaced_strip[OF a] by (simp add: re_sub_def)
qed

section \<open>The steps of the normalizer on a clean title\<close>

lemma already_clean_chars:
  "already_clean t \<Longrightarrow> i < length t \<Longrightarrow> t ! i \<notin> set SEPARATORS \<and> t ! i \<notin> set OPEN_BRACKETS"
  by (simp add: already_clean_def list_all_length)

lemma ends_sep_empty:
  assumes "already_clean t"
  shows "ends SPLIT_SEP_RE t i = {}"
proof -
  have c: "j < length t \<Longrightarrow> t ! j \<notin> set SEPARATORS" for j
    using already_clean_chars[OF assms, of j] by simp
  have "ends (alts [Chr (OneOf [0xFF5C, 0x7C]), Chr (OneOf [0x2D, 0x2013, 0x2014]),
                Chr (Lit 0x3A), Chr (Lit 0xFF1A), Chr (Lit 0xFF0F), Chr (Lit 0x2F)]) t j = {}" for j
    using c[of j] by (auto simp: SEPARATORS_def)
  then show ?thesis
    by (simp add: SPLIT_SEP_RE_def ends_cat_Cons del: alts.simps)
qed

lemma clean_step2:
  assumes "already_clean t"
  shows "strip (hd (re_split SPLIT_SEP_RE t)) = t"
proof -
  have "re_split SPLIT_SEP_RE t = [t]"
    by (rule no_match_split) (rule ends_sep_empty[OF assms])
  moreover have "strip t = t"
    using assms by (simp add: already_clean_def single_spaced_strip)
  ultimately show ?thesis by simp
qed

lemma no_newline_end:
  assumes "single_spaced t"
  shows "ends Eol t i = (if i = length t then {i} else {})"
proof -
  have "\<not> (Suc i = length t \<and> t ! i = 0x0A)"
  proof
    assume a: "Suc i = length t \<and> t ! i = 0x0A"
    then have "isspace (t ! i)" by (simp add: isspace_def)
    then show False
      using single_spacedD[OF assms, of i] a by simp
  qed
  then show ?thesis by auto
qed

lemma ends_suffix_word:
  assumes "single_spaced t"
  shows "ends (cat [word w, Eol]) t i = (if drop i t = w \<and> i \<le> length t then {length t} else {})"
proof -
  have a: "ends (cat [word w, Eol]) t i = (\<Union>j \<in> ends (word w) t i. ends Eol t j)"
    using ends_cat_Cons[of "word w" "[Eol]" t i] by (simp del: ends.simps)
  have b: "take (length w) (drop i t) = w \<and> i + length w = length t \<longleftrightarrow>
           drop i t = w \<and> i \<le> length t"
    by (auto simp: take_all_iff)
  show ?thesis
    unfolding a using b
    by (auto simp: ends_word no_newline_end[OF assms] simp del: ends.simps)
qed

lemma endswith_drop: "i \<le> length t \<Longrightarrow> drop i t = w \<Longrightarrow> endswith t w"
  by (auto simp: endswith_def)

lemma ends_suffix_word_empty:
  assumes "single_spaced t" "\<not> endswith t w"
  shows "ends (cat [word w, Eol]) t i = {}"
proof -
  have "\<not> (drop i t = w \<and> i \<le> length t)"
    using assms(2) endswith_drop[of i t w] by blast
  then show ?thesis
    by (simp only: ends_suffix_word[OF assms(1)] if_False)
qed

lemma ends_star_suffix_word_empty:
  assumes "single_spaced t" "\<not> endswith t w"
  shows "ends (cat [Star Space, word w, Eol]) t i = {}"
proof -
  have "ends (cat [Star Space, word w, Eol]) t i = (\<Union>j \<in> ends (Star Space) t i. ends (cat [word w, Eol]) t j)"
    by (rule ends_cat_Cons)
  then show ?thesis
    by (simp add: ends_suffix_word_empty[OF assms] del: cat.simps)
qed

lemma ends_prefix_word_empty:
  assumes "\<not> startswith t w"
  shows "ends (cat (Bol # word w # rs)) t i = {}"
proof -
  have "ends (word w) t 0 = {}"
    using assms by (simp add: ends_word startswith_def)
  then show ?thesis
    by (simp add: ends_cat_Cons del: cat.simps)
qed

section \<open>The normalizer on a clean title\<close>

lemma clean_word_suffix:
  assumes "single_spaced t" "\<not> endswith t w"
  shows "strip (re_sub (cat [word w, Eol]) [] t) = t"
  by (simp only: no_match_sub[OF ends_suffix_word_empty[OF assms]] single_spaced_strip[OF assms(1)])

lemma clean_word_prefix:
  assumes "single_spaced t" "\<not> startswith t w"
  shows "strip (re_sub (cat (Bol # word w # rs)) [] t) = t"
  by (simp only: no_match_sub[OF ends_prefix_word_empty[OF assms(2)]] single_spaced_strip[OF assms(1)])

lemma strip_noise_id:
  assumes "single_spaced t" "\<not> startswith t w" "\<not> endswith t w"
  shows "strip_noise t w = t"
  unfolding strip_noise_def Let_def
  by (simp only: clean_word_prefix[OF assms(1,2)]
        no_match_sub[OF ends_star_suffix_word_empty[OF assms(1,3)]]
        single_spaced_strip[OF assms(1)])

lemma foldl_strip_noise_id:
  assumes "single_spaced t" "list_all (\<lambda>w. \<not> startswith t w \<and> \<not> endswith t w) ws"
  shows "foldl strip_noise t ws = t"
  using assms(2) by (induction ws) (simp_all add: strip_noise_id[OF assms(1)])

lemma strip_chars_self:
  assumes "s = [] \<or> (hd s \<notin> set cs \<and> last s \<notin> set cs)"
  shows "strip_chars cs s = s"
proof (cases "s = []")
  case True
  then show ?thesis by (simp add: strip_chars_def)
next
  case False
  then have a: "dropWhile (\<lambda>c. c \<in> set cs) s = s"
    using assms by (simp add: dropWhile_eq_self_iff)
  have "hd (rev s) = last s"
    using False by (simp add: hd_rev)
  then have b: "dropWhile (\<lambda>c. c \<in> set cs) (rev s) = rev s"
    using assms False by (simp add: dropWhile_eq_self_iff)
  show ?thesis
    by (simp add: strip_chars_def a b)
qed

lemma clean_punct:
  assumes "already_clean t"
  shows "strip (strip_chars PUNCT t) = t"
proof -
  have s: "single_spaced t" and n: "t \<noteq> []"
    using assms by (auto simp: already_clean_def)
  have c: "\<And>x. x \<in> set t \<Longrightarrow> x \<notin> set SEPARATORS"
    using assms by (simp add: already_clean_def list_all_iff)
  have p: "\<And>x. x \<in> set PUNCT \<Longrightarrow> x = 0x20 \<or> x \<in> set SEPARATORS"
    by (auto simp: PUNCT_def SEPARATORS_def)
  have sp: "isspace 0x20" by (simp add: isspace_def)
  have h: "hd t \<notin> set PUNCT"
    using single_spaced_ends(1)[OF s n] c[of "hd t"] p[of "hd t"] n sp by auto
  have l: "last t \<notin> set PUNCT"
    using single_spaced_ends(2)[OF s n] c[of "last t"] p[of "last t"] n sp by auto
  show ?thesis
    using strip_chars_self[of t PUNCT] h l single_spaced_strip[OF s] by simp
qed

lemma ends_honorific_empty:
  assumes "single_spaced t" "\<not> honorific_tail t"
  shows "ends HONORIFIC_RE t i = {}"
proof -
  have h: "drop j t \<noteq> h"
    if a: "h \<in> set HONORIFICS" "j = Suc i" "i < length t" "isspace (t ! i)" for h j
  proof
    assume d: "drop j t = h"
    have "length h = length t - j" using d by auto
    then have e: "length h < length t \<and> length t - length h - 1 = i" using a by auto
    moreover have "endswith t h" using endswith_drop[of j t h] a d by simp
    ultimately have "honorific_tail t"
      using a by (auto simp: honorific_tail_def list_ex_iff)
    then show False using assms(2) by simp
  qed
  have w: "ends (cat [word w, Eol]) t j = {}"
    if "w \<in> set HONORIFICS" "j = Suc i" "i < length t" "isspace (t ! i)" for w j
    using h[OF that] by (simp only: ends_suffix_word[OF assms(1)]) simp
  have g: "ends (cat [Group (alts [word [0x3055, 0x3093], word [0x3061, 0x3083, 0x3093],
                       word [0x304F, 0x3093], word [0x6C0F]]), Eol]) t
      = (\<lambda>j. \<Union>w \<in> set HONORIFICS. ends (cat [word w, Eol]) t j)"
    by (rule ext) (auto simp: HONORIFICS_def)
  have "ends HONORIFIC_RE t i
      = (\<Union>j \<in> ends (Plus Space) t i. \<Union>w \<in> set HONORIFICS. ends (cat [word w, Eol]) t j)"
    unfolding HONORIFIC_RE_def by (subst ends_cat_Cons) (simp only: g)
  also have "\<dots> = {}"
    using w by (auto simp: ends_Plus single_spaced_run[OF assms(1)] simp del: cat.simps ends.simps split: if_splits)
  finally show ?thesis .
qed

lemma clean_honorific:
  assumes "single_spaced t" "\<not> honorific_tail t"
  shows "strip (re_sub HONORIFIC_RE [] t) = t"
  by (simp only: no_match_sub[OF ends_honorific_empty[OF assms]] single_spaced_strip[OF assms(1)])

lemma ends_star_eol:
  assumes "single_spaced t"
  shows "ends (cat [Star Space, Eol]) t k = (if k = length t then {length t} else {})"
proof -
  have a: "ends (cat [Star Space, Eol]) t k = (\<Union>j \<in> ends (Star Space) t k. ends Eol t j)"
    using ends_cat_Cons[of "Star Space" "[Eol]" t k] by (simp del: ends.simps)
  have b: "k < length t \<Longrightarrow> isspace (t ! k) \<Longrightarrow> Suc k \<noteq> length t"
    using single_spacedD[OF assms, of k] by simp
  show ?thesis
    unfolding a using b
    by (auto simp: ends_Star single_spaced_run[OF assms] no_newline_end[OF assms]
          simp del: ends.simps split: if_splits)
qed

lemma ends_bracket_empty:
  assumes "already_clean t" "b \<in> set OPEN_BRACKETS"
  shows "ends (cat (Chr (Lit b) # r # rs)) t j = {}"
  using already_clean_chars[OF assms(1), of j] assms(2) by auto

lemma ends_by_word:
  assumes s: "single_spaced t" and lw: "length w = 2"
    and k: "k \<in> ends (cat [word w, Plus Space, Plus NonSpace]) t j"
  shows "take 2 (drop j t) = w \<and> j + 2 < length t \<and> isspace (t ! (j + 2)) \<and>
         (\<exists>b. 1 \<le> b \<and> b \<le> run NonSpace t (j + 3) \<and> k = j + 3 + b)"
proof -
  have "ends (cat [word w, Plus Space, Plus NonSpace]) t j
      = (\<Union>a \<in> ends (word w) t j. \<Union>b \<in> ends (Plus Space) t a. ends (Plus NonSpace) t b)"
    by simp
  then obtain a b where a: "a \<in> ends (word w) t j" and b: "b \<in> ends (Plus Space) t a"
    and c: "k \<in> ends (Plus NonSpace) t b"
    using k by auto
  have a': "take 2 (drop j t) = w \<and> a = j + 2"
    using a lw by (auto simp: ends_word split: if_splits)
  have b': "a < length t \<and> isspace (t ! a) \<and> b = Suc a"
    using b by (auto simp: ends_Plus single_spaced_run[OF s] split: if_splits)
  have c': "\<exists>n. 1 \<le> n \<and> n \<le> run NonSpace t b \<and> k = b + n"
    using c by (auto simp: ends_Plus)
  have e: "j + 3 = Suc (Suc (Suc j))" by simp
  show ?thesis
    using a' b' c' by (auto simp: e)
qed

lemma by_word_empty:
  assumes s: "single_spaced t" and nb: "\<not> by_tail t" and w: "w = u ''by'' \<or> w = u ''By''"
  shows "(\<Union>k \<in> ends (cat [word w, Plus Space, Plus NonSpace]) t j.
            ends (cat [Star Space, Eol]) t k) = {}"
proof -
  have lw: "length w = 2" using w by (auto simp: u_def)
  have "k \<noteq> length t" if k: "k \<in> ends (cat [word w, Plus Space, Plus NonSpace]) t j" for k
  proof
    assume e: "k = length t"
    from ends_by_word[OF s lw k] obtain b where
      p: "take 2 (drop j t) = w" "j + 2 < length t" "isspace (t ! (j + 2))"
         "1 \<le> b" "b \<le> run NonSpace t (j + 3)" "k = j + 3 + b"
      by blast
    have "list_all (\<lambda>c. \<not> isspace c) (drop (j + 3) t)"
      unfolding list_all_length
    proof (intro allI impI)
      fix m assume "m < length (drop (j + 3) t)"
      then have "m < run NonSpace t (j + 3)" using e p by simp
      then have "cmatch NonSpace (t ! (j + 3 + m))" by (rule run_nth)
      moreover have "j + 3 + m \<le> length t" using e p \<open>m < length (drop (j + 3) t)\<close> by simp
      ultimately show "\<not> isspace (drop (j + 3) t ! m)" by simp
    qed
    moreover have "j + 3 < length t" using e p by simp
    moreover have "j \<in> set [0 ..< length t]" using p by simp
    ultimately have "by_tail t"
      unfolding by_tail_def list_ex_iff using p w by blast
    then show False using nb by simp
  qed
  then show ?thesis
    by (auto simp only: ends_star_eol[OF s] split: if_splits)
qed

lemma ends_tail_empty:
  assumes "already_clean t"
  shows "ends TAIL_RE t i = {}"
proof -
  have s: "single_spaced t" and nb: "\<not> by_tail t"
    using assms by (auto simp: already_clean_def)
  let ?by = "cat [word (u ''by''), Plus Space, Plus NonSpace]"
  let ?By = "cat [word (u ''By''), Plus Space, Plus NonSpace]"
  let ?b1 = "cat [Chr (Lit 0x3010), Rep (NoneOf [0x3011]) 1 (Some 40), Chr (Lit 0x3011)]"
  let ?b2 = "cat [Chr (Lit 0x28), Rep (NoneOf [0x29]) 1 (Some 40), Chr (Lit 0x29)]"
  let ?b3 = "cat [Chr (Lit 0xFF08), Rep (NoneOf [0xFF09]) 1 (Some 40), Chr (Lit 0xFF09)]"
  have b1: "ends ?b1 t j = {}" for j
    by (rule ends_bracket_empty[OF assms]) (simp add: OPEN_BRACKETS_def)
  have b2: "ends ?b2 t j = {}" for j
    by (rule ends_bracket_empty[OF assms]) (simp add: OPEN_BRACKETS_def)
  have b3: "ends ?b3 t j = {}" for j
    by (rule ends_bracket_empty[OF assms]) (simp add: OPEN_BRACKETS_def)
  have al: "ends (alts [?by, ?By, ?b1, ?b2, ?b3]) t j = ends ?by t j \<union> ends ?By t j" for j
    using b1[of j] b2[of j] b3[of j] by (simp del: cat.simps ends.simps add: ends.simps(4))
  have m: "(\<Union>k \<in> ends (alts [?by, ?By, ?b1, ?b2, ?b3]) t j. ends (cat [Star Space, Eol]) t k) = {}"
    for j
    using by_word_empty[OF s nb, of "u ''by''" j] by_word_empty[OF s nb, of "u ''By''" j]
    by (simp only: al UN_Un) simp
  have "ends TAIL_RE t i
      = (\<Union>j \<in> ends (Star Space) t i.
           \<Union>k \<in> ends (alts [?by, ?By, ?b1, ?b2, ?b3]) t j. ends (cat [Star Space, Eol]) t k)"
    unfolding TAIL_RE_def by (simp only: ends_cat_Cons)
  then show ?thesis
    by (simp only: m) simp
qed

lemma clean_tail:
  assumes "already_clean t"
  shows "strip_tail 2 t = t"
proof -
  have s: "single_spaced t"
    using assms by (simp add: already_clean_def)
  have "strip (re_sub TAIL_RE [] t) = t"
    by (simp only: no_match_sub[OF ends_tail_empty[OF assms]] single_spaced_strip[OF s])
  then show ?thesis
    by (simp add: numeral_2_eq_2)
qed

lemma clean_already_clean:
  assumes "already_clean t"
  shows "clean_dish_title t = Some t"
proof -
  have s: "single_spaced t" and n: "t \<noteq> []" and l: "2 \<le> length t \<and> length t \<le> 60"
    and h: "\<not> honorific_tail t"
    and w: "list_all (\<lambda>w. \<not> startswith t w \<and> \<not> endswith t w) NOISE_WORDS"
    using assms by (auto simp: already_clean_def)
  have r: "\<not> startswith t w_recipe" "\<not> endswith t w_recipe"
          "\<not> startswith t w_howto" "\<not> endswith t w_howto"
    using w by (simp_all add: NOISE_WORDS_def)
  show ?thesis
    unfolding clean_dish_title_def Let_def
    by (simp only: clean_step1[OF s] clean_step2[OF assms] clean_tail[OF assms]
          clean_word_suffix[OF s r(2)] clean_word_prefix[OF s r(1)]
          clean_word_suffix[OF s r(4)] clean_word_prefix[OF s r(3)]
          foldl_strip_noise_id[OF s w] clean_honorific[OF s h] clean_punct[OF assms]
          n l if_False if_True simp_thms)
qed

section \<open>Claim C2: the normalizer on its own results\<close>

text \<open>
  C2, as stated, fails: the normalizer is not idempotent. The loop that drops trailing
  annotations runs twice at most, so a title with three trailing parenthesised annotations
  keeps the first of them, and a second pass removes it: \<open>abc (x) (y) (z)\<close> is cleaned to
  \<open>abc (x)\<close>, which is cleaned to \<open>abc\<close>.
\<close>

theorem C2_three_annotations_counterexample:
  "clean_dish_title (u ''abc (x) (y) (z)'') = Some (u ''abc (x)'') \<and>
   clean_dish_title (u ''abc (x)'') = Some (u ''abc'')"
  by code_simp

text \<open>
  C2, amended. The normalizer returns an already clean title unchanged, where a title is
  already clean when it has 2 to 60 characters, its only whitespace is single spaces between
  two characters that are not whitespace, it contains no separator character and no opening
  bracket, it does not end with \<open>by\<close> or \<open>By\<close>, whitespace and a word, nor with whitespace
  and an honorific, and no noise word is at its start or at its end. So normalizing a result
  of the normalizer again gives the same result whenever that result is already clean.
\<close>

theorem C2_clean_fixed_point:
  "(already_clean t \<longrightarrow> clean_dish_title t = Some t) \<and>
   (clean_dish_title x = Some s \<and> already_clean s \<longrightarrow>
      clean_dish_title s = clean_dish_title x)"
  using clean_already_clean[of t] clean_already_clean[of s] by auto

theorem C2_clean_fixed_point_witness:
  "already_clean (u ''miso soup'') \<and>
   clean_dish_title (u ''miso soup'') = Some (u ''miso soup'') \<and>
   clean_dish_title (u ''miso soup (easy) | Example Kitchen'') = Some (u ''miso soup'') \<and>
   clean_dish_title (u ''miso soup'') =
     clean_dish_title (u ''miso soup (easy) | Example Kitchen'')"
proof -
  have a: "already_clean (u ''miso soup'')"
    by code_simp
  have b: "clean_dish_title (u ''miso soup (easy) | Example Kitchen'') = Some (u ''miso soup'')"
    by code_simp
  show ?thesis
    using C2_clean_fixed_point[of "u ''miso soup''" "u ''miso soup (easy) | Example Kitchen''"
        "u ''miso soup''"] a b
    by blast
qed

section \<open>Claim C1: the length of the title\<close>

text \<open>
  C1, as stated, fails: a page whose only title is 61 letters \<open>a\<close> is given that title, of
  length 61. The normalizer rejects it, and the fallback of \<open>get_og_title\<close> returns the raw
  title.
\<close>

theorem C1_title_of_61_counterexample:
  "get_og_title (example_env (u ''<title>'' @ replicate 61 0x61 @ u ''</title>''))
     (u ''https://example.com/'') = Inr (Some (replicate 61 0x61)) \<and>
   length (replicate 61 (0x61 :: int)) = 61"
proof -
  have b: "length (u ''<title>'' @ replicate 61 0x61 @ u ''</title>'') \<le> 240000"
    by (simp add: u_def)
  have c: "title_of_html env (u ''<title>'' @ replicate 61 0x61 @ u ''</title>'')
             = Some (replicate 61 0x61)" for env
    by code_simp
  show ?thesis by (simp add: example_get_og_title[OF example_url_nonempty b] c)
qed

text \<open>
  C1, amended. Whenever \<open>get_og_title\<close> returns a title, the length of the title is between 2
  and 80, and the title is the title of a page. The title of a page is what the normalizer
  makes of the raw title when the normalizer accepts it, and its length is then between 2
  and 60, as is the length of everything the normalizer returns; when the normalizer
  rejects the raw title, the title of the page is the trimmed raw title, and its length is
  between 2 and 80.
\<close>

theorem C1_title_length:
  "(get_og_title env url = Inr (Some t) \<longrightarrow>
      2 \<le> length t \<and> length t \<le> 80 \<and> (\<exists>html. title_of_html env html = Some t)) \<and>
   (title_of_html env html = Some t \<longrightarrow>
      (case clean_dish_title (or_empty (extracted_title env html)) of
         Some c \<Rightarrow> t = c \<and> 2 \<le> length t \<and> length t \<le> 60
       | None \<Rightarrow>
           t = strip (or_empty (extracted_title env html)) \<and> 2 \<le> length t \<and> length t \<le> 80)) \<and>
   (clean_dish_title raw = Some c \<longrightarrow> 2 \<le> length c \<and> length c \<le> 60)"
  using get_og_title_length[of env url t] get_og_title_from_html[of env url t]
    title_of_html_path_lengths[of env html t] clean_dish_title_length[of raw c]
  by blast

theorem C1_title_length_witness:
  "get_og_title (example_env (u ''<title>Curry rice</title>'')) (u ''https://example.com/'')
     = Inr (Some (u ''Curry rice'')) \<and>
   title_of_html (example_env (u ''<title>Curry rice</title>'')) (u ''<title>Curry rice</title>'')
     = Some (u ''Curry rice'') \<and>
   clean_dish_title
     (or_empty (extracted_title (example_env (u ''<title>Curry rice</title>''))
        (u ''<title>Curry rice</title>''))) = Some (u ''Curry rice'') \<and>
   2 \<le> length (u ''Curry rice'') \<and> length (u ''Curry rice'') \<le> 60 \<and>
   title_of_html (example_env []) (u ''<title>'' @ replicate 61 0x61 @ u ''</title>'')
     = Some (replicate 61 0x61) \<and>
   clean_dish_title
     (or_empty (extracted_title (example_env [])
        (u ''<title>'' @ replicate 61 0x61 @ u ''</title>''))) = None \<and>
   replicate 61 0x61 =
     strip (or_empty (extracted_title (example_env [])
        (u ''<title>'' @ replicate 61 0x61 @ u ''</title>''))) \<and>
   length (replicate 61 (0x61 :: int)) \<le> 80"
proof -
  let ?page = "u ''<title>Curry rice</title>''"
  let ?long = "u ''<title>'' @ replicate 61 0x61 @ u ''</title>''"
  have b: "length ?page \<le> 240000"
    by (simp add: u_def)
  have c: "title_of_html (example_env ?page) ?page = Some (u ''Curry rice'')"
    by code_simp
  have h: "get_og_title (example_env ?page) (u ''https://example.com/'')
             = Inr (Some (u ''Curry rice''))"
    by (simp only: example_get_og_title[OF example_url_nonempty b] c)
  have d: "clean_dish_title (or_empty (extracted_title (example_env ?page) ?page))
             = Some (u ''Curry rice'')"
    by code_simp
  have e: "title_of_html (example_env []) ?long = Some (replicate 61 0x61)"
    by code_simp
  have f: "clean_dish_title (or_empty (extracted_title (example_env []) ?long)) = None"
    by code_simp
  show ?thesis
    using h c d e f
      C1_title_length[of "example_env ?page" "u ''https://example.com/''" "u ''Curry rice''"
        ?page "or_empty (extracted_title (example_env ?page) ?page)" "u ''Curry rice''"]
      C1_title_length[of "example_env []" "u ''https://example.com/''" "replicate 61 0x61"
        ?long "[]" "[]"]
    by simp
qed

section \<open>Claim C10: the fallback to the raw title\<close>

text \<open>
  C10. The raw title, which is what the extractors give (the empty string when they give
  nothing), is already trimmed. When the normalizer rejects it, the title of the page is the
  raw title itself if its trimmed length is between 2 and 80, and there is no title
  otherwise. \<open>get_og_title\<close> returns the title of the page it has fetched.
\<close>

theorem C10_fallback_raw_title:
  "strip (or_empty (extracted_title env html)) = or_empty (extracted_title env html) \<and>
   (clean_dish_title (or_empty (extracted_title env html)) = None \<longrightarrow>
      title_of_html env html =
        (if 2 \<le> length (strip (or_empty (extracted_title env html))) \<and>
            length (strip (or_empty (extracted_title env html))) \<le> 80
         then Some (or_empty (extracted_title env html)) else None)) \<and>
   (url \<noteq> [] \<and> is_safe_public_http_url env (strip url) = Inr True \<and>
    fetch_html env (strip url) 240000 = Inr (Some html) \<longrightarrow>
      get_og_title env url = Inr (title_of_html env html))"
  using extracted_title_trimmed[of env html] title_of_html_paths[of env html]
    get_og_title_fetched[of url env html]
  by (simp add: Let_def)

theorem C10_fallback_raw_title_witness:
  "clean_dish_title
     (or_empty (extracted_title (example_env (u ''<title>'' @ replicate 61 0x61 @ u ''</title>''))
        (u ''<title>'' @ replicate 61 0x61 @ u ''</title>''))) = None \<and>
   or_empty (extracted_title (example_env (u ''<title>'' @ replicate 61 0x61 @ u ''</title>''))
        (u ''<title>'' @ replicate 61 0x61 @ u ''</title>'')) = replicate 61 0x61 \<and>
   get_og_title (example_env (u ''<title>'' @ replicate 61 0x61 @ u ''</title>''))
     (u ''https://example.com/'') = Inr (Some (replicate 61 0x61)) \<and>
   clean_dish_title (or_empty (extracted_title (example_env (u ''<title>a</title>''))
        (u ''<title>a</title>''))) = None \<and>
   or_empty (extracted_title (example_env (u ''<title>a</title>'')) (u ''<title>a</title>''))
     = u ''a'' \<and>
   get_og_title (example_env (u ''<title>a</title>'')) (u ''https://example.com/'') = Inr None"
proof -
  let ?long = "u ''<title>'' @ replicate 61 0x61 @ u ''</title>''"
  let ?short = "u ''<title>a</title>''"
  let ?url = "u ''https://example.com/''"
  have r1: "or_empty (extracted_title (example_env ?long) ?long) = replicate 61 0x61"
    by code_simp
  have c1: "clean_dish_title (replicate 61 0x61) = None"
    by code_simp
  have r2: "or_empty (extracted_title (example_env ?short) ?short) = u ''a''"
    by code_simp
  have c2: "clean_dish_title (u ''a'') = None"
    by code_simp
  have s: "is_safe_public_http_url (example_env page) (strip ?url) = Inr True" for page
    by (rule example_is_safe)
  have f1: "fetch_html (example_env ?long) (strip ?url) 240000 = Inr (Some ?long)"
    by (rule example_fetch_html) (simp add: u_def)
  have f2: "fetch_html (example_env ?short) (strip ?url) 240000 = Inr (Some ?short)"
    by (rule example_fetch_html) (simp add: u_def)
  have l: "length (u ''a'') = 1"
    by (simp add: u_def)
  show ?thesis
    using C10_fallback_raw_title[of "example_env ?long" ?long ?url]
      C10_fallback_raw_title[of "example_env ?short" ?short ?url]
      example_url_nonempty s f1 f2
    by (simp add: r1 c1 r2 c2 l)
qed

section \<open>Claim C3: a page with a title element only\<close>

text \<open>
  C3. The page is \<open><title>T</title>\<close>, where \<open>T\<close> is karubonaara-no-tsukurikata, a hyphen
  between two spaces, and kukkupaddo. Whatever \<open>json.loads\<close> does, extraction and
  normalization give karubonaara-no, with the particle no (U+306E) left at its end, and not
  karubonaara: the normalizer cuts at the separator and drops the suffix tsukurikata, and no
  step of it drops the particle.
\<close>

theorem C3_title_only_page:
  "title_of_html env
     (u ''<title>'' @
      [0x30AB, 0x30EB, 0x30DC, 0x30CA, 0x30FC, 0x30E9, 0x306E, 0x4F5C, 0x308A, 0x65B9, 0x20, 0x2D,
       0x20, 0x30AF, 0x30C3, 0x30AF, 0x30D1, 0x30C3, 0x30C9] @
      u ''</title>'')
   = Some [0x30AB, 0x30EB, 0x30DC, 0x30CA, 0x30FC, 0x30E9, 0x306E]"
  by code_simp

section \<open>Claim C4: the validator\<close>

text \<open>
  C4. The validator never raises, and it answers \<open>True\<close> exactly when the URL parses, its
  scheme is \<open>http\<close> or \<open>https\<close>, it has a host name that is not empty and is not
  \<open>localhost\<close>, the host name resolves, the address parses, and the address is not private,
  loopback, link-local, reserved or multicast. In every other case, a failure to parse or
  to resolve among them, the answer is \<open>False\<close>.
\<close>

theorem C4_validator:
  "is_safe_public_http_url env url =
     Inr (\<exists>p host ip f.
            urlparse env url = Inr p \<and> (scheme p = u ''http'' \<or> scheme p = u ''https'') \<and>
            hostname p = Inr (Some host) \<and> host \<noteq> [] \<and> host \<noteq> u ''localhost'' \<and>
            gethostbyname env host = Inr ip \<and> ip_address env ip = Inr f \<and>
            \<not> is_private f \<and> \<not> is_loopback f \<and> \<not> is_link_local f \<and> \<not> is_reserved f \<and>
            \<not> is_multicast f)"
  by (auto simp: is_safe_public_http_url_def is_safe_public_http_url_try_def
      except_Exception_def truthy_def or_empty_def split: sum.splits option.splits)

section \<open>Claim C5: the structured-data extractor\<close>




section \<open>Claim C6: the meta-tag extractors\<close>



section \<open>Claim C7: the categories\<close>

text \<open>
  C7, as stated, fails for \<open>normalize_category\<close>: a string outside the key set is not always
  mapped to the "other" key. The key pasuta with a leading space is not a key, and it is
  normalized to pasuta.
\<close>

theorem C7_normalize_outside_set_counterexample:
  "u '' '' @ c_pasta \<notin> CATEGORY_KEYS \<and> normalize_category (Some (u '' '' @ c_pasta)) \<noteq> c_sonota"
  by code_simp

text \<open>
  C7, amended. There are nineteen category keys. The classifier's answer is always one of
  them: it is the label of the first rule, in the declared order, one of whose keywords occurs
  in the lower-cased text, and the default category (itself a key) when no rule has one.
  \<open>normalize_category\<close> always answers with a key too: it turns ideographic spaces into
  spaces and trims the string, and answers with the trimmed string when that is a key and
  with the "other" key when it is not.
\<close>

theorem C7_categories_closed:
  "card CATEGORY_KEYS = 19 \<and>
   guess_category_from_text lower text \<in> CATEGORY_KEYS \<and>
   guess_category_from_text lower text = classify_by_rules RULES (lower (or_empty text)) \<and>
   classify_by_rules [] t = DEFAULT_CATEGORY \<and>
   DEFAULT_CATEGORY \<in> CATEGORY_KEYS \<and>
   normalize_category c \<in> CATEGORY_KEYS \<and>
   normalize_category c =
     (if normalize_spaces c \<in> CATEGORY_KEYS then normalize_spaces c else c_sonota)"
proof -
  have d: "DEFAULT_CATEGORY \<in> CATEGORY_KEYS"
    by (simp add: DEFAULT_CATEGORY_def CATEGORY_KEYS_def CATEGORIES_def)
  have e: "classify_by_rules [] t = DEFAULT_CATEGORY"
    by (simp add: classify_by_rules_def)
  have n: "normalize_category c =
     (if normalize_spaces c \<in> CATEGORY_KEYS then normalize_spaces c else c_sonota)"
    by (simp add: normalize_category_def Let_def)
  show ?thesis
    using card_CATEGORY_KEYS guess_category_in_keys guess_category_first_rule
      normalize_category_in_keys d e n
    by blast
qed

section \<open>Claim C8: the two caches\<close>




section \<open>Claim C9: no exception reaches the caller\<close>

text \<open>
  C9, as stated, fails where it lists malformed structured data among the failures that
  give \<open>None\<close>. In the example world the page below has one JSON-LD block, whose text is an
  opening brace; \<open>json.loads\<close> refuses it, the block is skipped, and the lookup goes on to
  the title element and returns its text.
\<close>

theorem C9_malformed_jsonld_counterexample:
  "re_finditer JSONLD_RE
     (u ''<script type='' @ [0x22] @ u ''application/ld+json'' @ [0x22] @
      u ''>{</script><title>ab</title>'') = [u ''{''] \<and>
   json_loads
     (example_env (u ''<script type='' @ [0x22] @ u ''application/ld+json'' @ [0x22] @
                   u ''>{</script><title>ab</title>'')) (u ''{'') = Inl JSONDecodeError \<and>
   get_og_title
     (example_env (u ''<script type='' @ [0x22] @ u ''application/ld+json'' @ [0x22] @
                   u ''>{</script><title>ab</title>''))
     (u ''https://example.com/'') = Inr (Some (u ''ab''))"
proof -
  let ?page = "u ''<script type='' @ [0x22] @ u ''application/ld+json'' @ [0x22] @
               u ''>{</script><title>ab</title>''"
  have a: "re_finditer JSONLD_RE ?page = [u ''{'']"
    by code_simp
  have b: "length ?page \<le> 240000"
    by (simp add: u_def)
  have c: "title_of_html (example_env ?page) ?page = Some (u ''ab'')"
    by code_simp
  have d: "json_loads (example_env ?page) (u ''{'') = Inl JSONDecodeError"
    by (simp add: example_env_def)
  show ?thesis
    by (simp only: a d example_get_og_title[OF example_url_nonempty b] c simp_thms)
qed

text \<open>
  C9, amended. \<open>get_og_title\<close> and \<open>get_og_image\<close> never raise: each returns a value, which
  is \<open>None\<close> for the empty URL, for a URL the validator does not accept, when the request
  raises (a network error, a timeout, a status that is not 2xx), when the content type does
  not contain \<open>text/html\<close>, and when reading the body raises (or, for the image, joining the
  URLs). Otherwise the body is cut to its first 240000 bytes (220000 for the image) and
  decoded with undecodable bytes dropped, malformed JSON-LD blocks are skipped, and the result
  is what the extractors find in the text that remains: \<open>None\<close> when the page has no JSON-LD
  recipe name, no meta title and no title element, or no meta image. Classifying an absent
  text gives the default category (\<open>str.lower\<close> of the empty string being the empty string),
  and so does the endpoint when there is no title.
\<close>

theorem C9_never_raises:
  "get_og_title env url =
     Inr (if url = [] \<or> is_safe_public_http_url env (strip url) \<noteq> Inr True then None
          else (case urlopen env (strip url) of
                  Inl e \<Rightarrow> None
                | Inr res \<Rightarrow>
                    if \<not> is_html env res then None
                    else (case payload res of
                            Inl e \<Rightarrow> None
                          | Inr body \<Rightarrow>
                              title_of_html env (decode_utf8_ignore env (take 240000 body))))) \<and>
   get_og_image env url =
     Inr (if url = [] \<or> is_safe_public_http_url env (strip url) \<noteq> Inr True then None
          else (case urlopen env (strip url) of
                  Inl e \<Rightarrow> None
                | Inr res \<Rightarrow>
                    if \<not> is_html env res then None
                    else (case payload res of
                            Inl e \<Rightarrow> None
                          | Inr body \<Rightarrow>
                              (case image_of_html env (strip url)
                                      (decode_utf8_ignore env (take 220000 body)) of
                                 Inl e \<Rightarrow> None
                               | Inr img \<Rightarrow> img)))) \<and>
   (extract_recipe_name_from_jsonld env html = None \<and> extract_og_or_title html = None \<longrightarrow>
      title_of_html env html = None) \<and>
   (search_cascade IMAGE_META_PATTERNS html = None \<longrightarrow>
      image_of_html env page_url html = Inr None) \<and>
   (str_lower env [] = [] \<longrightarrow>
      guess_category_from_text (str_lower env) None = DEFAULT_CATEGORY \<and>
      (get_og_title env url = Inr None \<longrightarrow> meta env url = Inr (None, DEFAULT_CATEGORY)))"
proof -
  have i: "search_cascade IMAGE_META_PATTERNS html = None \<longrightarrow>
           image_of_html env page_url html = Inr None"
    by (simp add: image_of_html_def)
  show ?thesis
    using get_og_title_eq[of env url] get_og_image_eq[of env url]
      title_of_html_no_signal[of env html] guess_category_absent[of "str_lower env"]
      meta_absent[of env url] i
    by blast
qed

theorem C9_never_raises_witness:
  "extract_recipe_name_from_jsonld (example_env []) [] = None \<and>
   extract_og_or_title [] = None \<and>
   title_of_html (example_env []) [] = None \<and>
   search_cascade IMAGE_META_PATTERNS [] = None \<and>
   image_of_html (example_env []) (u ''https://example.com/'') [] = Inr None \<and>
   str_lower (example_env []) [] = [] \<and>
   guess_category_from_text (str_lower (example_env [])) None = DEFAULT_CATEGORY \<and>
   get_og_title (example_env []) (u ''https://example.com/'') = Inr None \<and>
   meta (example_env []) (u ''https://example.com/'') = Inr (None, DEFAULT_CATEGORY)"
proof -
  have a: "extract_recipe_name_from_jsonld (example_env []) [] = None"
    by code_simp
  have b: "extract_og_or_title [] = None"
    by code_simp
  have c: "search_cascade IMAGE_META_PATTERNS [] = None"
    by code_simp
  have d: "str_lower (example_env []) [] = []"
    by (simp add: example_env_def)
  note inst = C9_never_raises[of "example_env []" "u ''https://example.com/''" "[]"
      "u ''https://example.com/''"]
  have t: "title_of_html (example_env []) [] = None"
    using inst a b by blast
  have g: "get_og_title (example_env []) (u ''https://example.com/'') = Inr None"
    using example_get_og_title[OF example_url_nonempty, of "[]"] t by simp
  show ?thesis
    using inst a b c d t g by blast
qed

end
